theory Spec2Isabelle
  imports Main "HOL-Library.Char_ord" "HOL-Library.List_Lexorder"
begin

section \<open>Tables as the script has them\<close>

text \<open>
  \<^verbatim>\<open>populate_database.py\<close> is one function, \<^verbatim>\<open>main\<close>, that threads three pandas
  data frames through \<^verbatim>\<open>rename\<close>, column selection, \<^verbatim>\<open>merge\<close>,
  \<^verbatim>\<open>groupby(...).agg(...)\<close> and \<^verbatim>\<open>to_sql\<close>. The model follows it call by call.

  A cell is what \<^verbatim>\<open>read_csv\<close> puts into a frame: a missing value (an empty field,
  pandas' NaN), a boolean, an integer or a text. Fractional numbers are left out.
\<close>

datatype cell = NaN | BoolV bool | IntV int | StrV string

text \<open>
  A frame is its column labels, in order, and its rows, each holding one cell per label.
  Labels may repeat: \<^verbatim>\<open>rename\<close> and \<^verbatim>\<open>merge\<close> do not keep them apart.
\<close>

record frame =
  columns :: "string list"
  rows :: "cell list list"

text \<open>
  What \<^verbatim>\<open>read_csv\<close> returns: the labels are distinct (it renames a repeated header
  \<^verbatim>\<open>x\<close> to \<^verbatim>\<open>x.1\<close>) and every row has one cell per label.
\<close>

definition wf_frame :: "frame \<Rightarrow> bool" where
  "wf_frame df = (distinct (columns df) \<and> list_all (\<lambda>r. length r = length (columns df)) (rows df))"

text \<open>The exceptions of the calls the script makes; none is caught, so each ends the run.\<close>

datatype error =
    KeyError "string list"
  | MergeError "string list"
  | ValueError string
  | TypeError
  | StorageError

subsection \<open>The order of cells\<close>

text \<open>
  \<^verbatim>\<open>groupby\<close> sorts the group keys. Within one kind of value the order is that of
  Python: \<^verbatim>\<open>False < True\<close>, integers by value, texts lexicographically by character
  code. A column of a frame read from a file holds one kind of value, so the order across
  kinds (missing, booleans, integers, texts) only serves to make the order total.
\<close>

instantiation cell :: linorder
begin

fun less_eq_cell :: "cell \<Rightarrow> cell \<Rightarrow> bool" where
  "less_eq_cell NaN _ = True"
| "less_eq_cell (BoolV x) NaN = False"
| "less_eq_cell (BoolV x) (BoolV y) = (x \<le> y)"
| "less_eq_cell (BoolV x) _ = True"
| "less_eq_cell (IntV x) (IntV y) = (x \<le> y)"
| "less_eq_cell (IntV x) (StrV y) = True"
| "less_eq_cell (IntV x) _ = False"
| "less_eq_cell (StrV x) (StrV y) = (x \<le> y)"
| "less_eq_cell (StrV x) _ = False"

definition less_cell :: "cell \<Rightarrow> cell \<Rightarrow> bool" where
  "less_cell a b = (a \<le> b \<and> \<not> b \<le> a)"

instance
proof
  fix x y z :: cell
  show "(x < y) = (x \<le> y \<and> \<not> y \<le> x)"
    by (simp add: less_cell_def)
  show "x \<le> x"
    by (cases x) simp_all
  show "x \<le> y \<Longrightarrow> y \<le> z \<Longrightarrow> x \<le> z"
    by (cases x; cases y; cases z) auto
  show "x \<le> y \<Longrightarrow> y \<le> x \<Longrightarrow> x = y"
    by (cases x; cases y) auto
  show "x \<le> y \<or> y \<le> x"
    by (cases x; cases y) auto
qed

end

subsection \<open>Labels and cells by position\<close>

definition positions :: "string \<Rightarrow> string list \<Rightarrow> nat list" where
  "positions n cols = [i \<leftarrow> [0..<length cols]. cols ! i = n]"

fun index_of :: "string \<Rightarrow> string list \<Rightarrow> nat" where
  "index_of n [] = 0"
| "index_of n (c # cs) = (if c = n then 0 else Suc (index_of n cs))"

text \<open>The cell of row \<open>r\<close> under the first column labelled \<open>n\<close>: \<^verbatim>\<open>row[n]\<close>.\<close>

definition cell_at :: "frame \<Rightarrow> string \<Rightarrow> cell list \<Rightarrow> cell" where
  "cell_at df n r = r ! index_of n (columns df)"

subsection \<open>\<^verbatim>\<open>DataFrame.rename(columns=...)\<close>\<close>

text \<open>
  A label that is a key of the mapping is replaced, every other label stays; a key that
  labels no column is ignored (\<^verbatim>\<open>errors='ignore'\<close> is the default).
\<close>

definition rename_label :: "(string \<times> string) list \<Rightarrow> string \<Rightarrow> string" where
  "rename_label m c = (case map_of m c of None \<Rightarrow> c | Some c' \<Rightarrow> c')"

definition rename_columns :: "(string \<times> string) list \<Rightarrow> frame \<Rightarrow> frame" where
  "rename_columns m df = df\<lparr>columns := map (rename_label m) (columns df)\<rparr>"

subsection \<open>\<^verbatim>\<open>df[[...]]\<close>: selection by a list of labels\<close>

text \<open>
  Raises \<^verbatim>\<open>KeyError\<close>, naming the labels that are not in the frame, if there is one.
  Otherwise the result holds, for each requested label in turn, every column so
  labelled.
\<close>

definition getitem_list :: "string list \<Rightarrow> frame \<Rightarrow> error + frame" where
  "getitem_list names df =
     (let missing = [n \<leftarrow> names. n \<notin> set (columns df)] in
      if missing \<noteq> [] then Inl (KeyError missing)
      else
        let idx = concat (map (\<lambda>n. positions n (columns df)) names) in
        Inr \<lparr>columns = map ((!) (columns df)) idx,
             rows = map (\<lambda>r. map ((!) r) idx) (rows df)\<rparr>)"

subsection \<open>\<^verbatim>\<open>df[name] = value\<close>: a column of one value\<close>

text \<open>
  Every column labelled \<open>name\<close> is overwritten; if there is none, a new last column is
  added.
\<close>

definition setitem :: "string \<Rightarrow> cell \<Rightarrow> frame \<Rightarrow> frame" where
  "setitem name v df =
     (if name \<in> set (columns df)
      then df\<lparr>rows := map (\<lambda>r. map (\<lambda>(c, x). if c = name then v else x) (zip (columns df) r)) (rows df)\<rparr>
      else df\<lparr>columns := columns df @ [name], rows := map (\<lambda>r. r @ [v]) (rows df)\<rparr>)"

section \<open>The direct mapper (step 3 of \<^verbatim>\<open>main\<close>)\<close>

definition shipment_columns :: "string list" where
  "shipment_columns =
     [''origin'', ''destination'', ''product_name'', ''quantity'', ''on_time'', ''driver_identifier'']"

definition sheet0_renames :: "(string \<times> string) list" where
  "sheet0_renames =
     [(''origin_warehouse'', ''origin''),
      (''destination_store'', ''destination''),
      (''product'', ''product_name''),
      (''product_quantity'', ''quantity'')]"

text \<open>The six fields the spec requires of the self-contained table, in the order of their targets.\<close>

definition source_columns :: "string list" where
  "source_columns =
     [''origin_warehouse'', ''destination_store'', ''product'', ''product_quantity'', ''on_time'',
      ''driver_identifier'']"

text \<open>\<^verbatim>\<open>sheet0_clean\<close> as \<^verbatim>\<open>main\<close> computes it from \<^verbatim>\<open>sheet0\<close>.\<close>

definition direct_mapper :: "frame \<Rightarrow> error + frame" where
  "direct_mapper sheet0 = getitem_list shipment_columns (rename_columns sheet0_renames sheet0)"

section \<open>The join-aggregate reconciler (steps 4 and 5 of \<^verbatim>\<open>main\<close>)\<close>

subsection \<open>\<^verbatim>\<open>pd.merge(left, right, on=key)\<close>\<close>

text \<open>
  The defaults are \<^verbatim>\<open>how='inner'\<close> and \<^verbatim>\<open>suffixes=('_x', '_y')\<close>. In the order pandas
  checks:
  \<^item> \<^verbatim>\<open>KeyError\<close> if the key labels no column of one of the frames;
  \<^item> \<^verbatim>\<open>ValueError\<close> (\<^emph>\<open>You are trying to merge on object and int64 columns\<close>) if both
    key columns have cells and one holds text while the other holds only numbers or
    missing values;
  \<^item> a label other than the key that both frames have gets the suffix \<^verbatim>\<open>_x\<close> on the left
    and \<^verbatim>\<open>_y\<close> on the right; \<^verbatim>\<open>MergeError\<close> if that makes two labels of one side equal;
  \<^item> the result has the left columns, then the right columns without the key; its rows
    are, for each left row in order, that row joined with each right row of an equal key,
    in order (an inner join keeps the order of the left keys). Missing keys are equal to
    each other.
  The coercions pandas applies between other kinds of key columns (booleans and numbers)
  are not modelled.
\<close>

definition drop_at :: "nat \<Rightarrow> 'a list \<Rightarrow> 'a list" where
  "drop_at i xs = take i xs @ drop (Suc i) xs"

fun is_text :: "cell \<Rightarrow> bool" where
  "is_text (StrV s) = True"
| "is_text _ = False"

fun is_number :: "cell \<Rightarrow> bool" where
  "is_number NaN = True"
| "is_number (IntV i) = True"
| "is_number _ = False"

definition keys_clash :: "cell list \<Rightarrow> cell list \<Rightarrow> bool" where
  "keys_clash lk rk =
     (lk \<noteq> [] \<and> rk \<noteq> [] \<and>
      (list_ex is_text lk \<and> list_all is_number rk \<or> list_all is_number lk \<and> list_ex is_text rk))"

definition left_labels :: "string \<Rightarrow> string list \<Rightarrow> string list \<Rightarrow> string list" where
  "left_labels on lcols rcols =
     map (\<lambda>c. if c \<noteq> on \<and> c \<in> set lcols \<and> c \<in> set rcols then c @ ''_x'' else c) lcols"

definition right_labels :: "string \<Rightarrow> string list \<Rightarrow> string list \<Rightarrow> string list" where
  "right_labels on lcols rcols =
     map (\<lambda>c. if c \<noteq> on \<and> c \<in> set lcols \<and> c \<in> set rcols then c @ ''_y'' else c)
       (drop_at (index_of on rcols) rcols)"

definition merge :: "string \<Rightarrow> frame \<Rightarrow> frame \<Rightarrow> error + frame" where
  "merge on left right =
     (if on \<notin> set (columns left) \<or> on \<notin> set (columns right) then Inl (KeyError [on])
      else
        let li = index_of on (columns left);
            ri = index_of on (columns right);
            llabels = left_labels on (columns left) (columns right);
            rlabels = right_labels on (columns left) (columns right)
        in
          if keys_clash (map (\<lambda>r. r ! li) (rows left)) (map (\<lambda>r. r ! ri) (rows right))
          then Inl (ValueError ''You are trying to merge on columns of different types'')
          else if \<not> distinct llabels \<or> \<not> distinct rlabels
          then Inl (MergeError [l \<leftarrow> llabels @ rlabels. 1 < count_list llabels l \<or> 1 < count_list rlabels l])
          else
            Inr \<lparr>columns = llabels @ rlabels,
                 rows = concat (map (\<lambda>l. map (\<lambda>r. l @ drop_at ri r) [r \<leftarrow> rows right. r ! ri = l ! li])
                                    (rows left))\<rparr>)"

subsection \<open>\<^verbatim>\<open>groupby(by).agg({sum_col: 'sum', first_col: 'first'}).reset_index()\<close>\<close>

text \<open>
  The defaults of \<^verbatim>\<open>groupby\<close> are \<^verbatim>\<open>sort=True\<close> and \<^verbatim>\<open>dropna=True\<close>: a row with a missing
  value under one of the grouping labels belongs to no group, and the groups come out in
  ascending order of their keys. \<^verbatim>\<open>'sum'\<close> adds the numbers of the group, skipping missing
  ones; \<^verbatim>\<open>'first'\<close> is the first value of the group that is not missing, and missing if
  there is none. \<^verbatim>\<open>reset_index\<close> turns the keys back into the leading columns.
  The script sums a column of integers only; summing a column that holds text is left
  out of the model and stands as \<^verbatim>\<open>TypeError\<close>.

  \<^verbatim>\<open>groupby\<close> raises \<^verbatim>\<open>KeyError\<close> for a grouping label that labels no column and
  \<^verbatim>\<open>ValueError\<close> (\<^emph>\<open>Grouper not 1-dimensional\<close>) for one that labels several; \<^verbatim>\<open>agg\<close> raises
  \<^verbatim>\<open>KeyError\<close> for an aggregated label that labels no column.
\<close>

fun cell_int :: "cell \<Rightarrow> int" where
  "cell_int (IntV i) = i"
| "cell_int (BoolV b) = (if b then 1 else 0)"
| "cell_int _ = 0"

definition agg_first :: "cell list \<Rightarrow> cell" where
  "agg_first cs = (case filter (\<lambda>c. c \<noteq> NaN) cs of [] \<Rightarrow> NaN | c # _ \<Rightarrow> c)"

text \<open>The key of row \<open>r\<close> of frame \<open>df\<close> under the grouping labels \<open>by\<close>.\<close>

definition group_key :: "string list \<Rightarrow> frame \<Rightarrow> cell list \<Rightarrow> cell list" where
  "group_key by df r = map (\<lambda>n. cell_at df n r) by"

definition groupby_agg :: "string list \<Rightarrow> string \<Rightarrow> string \<Rightarrow> frame \<Rightarrow> error + frame" where
  "groupby_agg by sum_col first_col df =
     (case [n \<leftarrow> by. n \<notin> set (columns df)] of
        n # _ \<Rightarrow> Inl (KeyError [n])
      | [] \<Rightarrow>
          if list_ex (\<lambda>n. length (positions n (columns df)) \<noteq> 1) by
          then Inl (ValueError ''Grouper not 1-dimensional'')
          else if [n \<leftarrow> [sum_col, first_col]. n \<notin> set (columns df)] \<noteq> []
          then Inl (KeyError [n \<leftarrow> [sum_col, first_col]. n \<notin> set (columns df)])
          else
            let kept = [r \<leftarrow> rows df. NaN \<notin> set (group_key by df r)] in
              if list_ex (\<lambda>r. is_text (cell_at df sum_col r)) kept then Inl TypeError
              else
                Inr \<lparr>columns = by @ [sum_col, first_col],
                     rows = map (\<lambda>k. k @ [IntV (sum_list (map (\<lambda>r. cell_int (cell_at df sum_col r))
                                                            [r \<leftarrow> kept. group_key by df r = k])),
                                         agg_first (map (cell_at df first_col)
                                                        [r \<leftarrow> kept. group_key by df r = k])])
                                (sort (remdups (map (group_key by df) kept)))\<rparr>)"

subsection \<open>The reconciler\<close>

definition merge_renames :: "(string \<times> string) list" where
  "merge_renames =
     [(''origin_warehouse'', ''origin''),
      (''destination_store'', ''destination''),
      (''product'', ''product_name'')]"

definition group_columns :: "string list" where
  "group_columns = [''origin'', ''destination'', ''product_name'']"

text \<open>\<^verbatim>\<open>merged_mapped\<close> after line 71: the joined rows, renamed, each with the quantity 1.\<close>

definition merged_mapped :: "frame \<Rightarrow> frame" where
  "merged_mapped merged = setitem ''quantity'' (IntV 1) (rename_columns merge_renames merged)"

text \<open>\<^verbatim>\<open>shipment_summary\<close> as \<^verbatim>\<open>main\<close> computes it from \<^verbatim>\<open>sheet1\<close> and \<^verbatim>\<open>sheet2\<close>.\<close>

definition reconciler :: "frame \<Rightarrow> frame \<Rightarrow> error + frame" where
  "reconciler sheet1 sheet2 =
     (case merge ''shipment_identifier'' sheet1 sheet2 of
        Inl e \<Rightarrow> Inl e
      | Inr merged \<Rightarrow>
          (case groupby_agg group_columns ''quantity'' ''on_time'' (merged_mapped merged) of
             Inl e \<Rightarrow> Inl e
           | Inr summary \<Rightarrow>
               getitem_list shipment_columns
                 (setitem ''driver_identifier'' (StrV ''unknown'') summary)))"

text \<open>The aggregation key of a row of frame \<open>df\<close>: its origin, destination and product name.\<close>

definition agg_key :: "frame \<Rightarrow> cell list \<Rightarrow> cell list" where
  "agg_key df r = group_key group_columns df r"

text \<open>
  The labels of two tables fit the reconciler when the suffixes of the join make no two
  labels of one side equal and, in the joined and renamed table, each grouping label
  stands on exactly one column and \<^verbatim>\<open>on_time\<close> on at least one.
\<close>

definition reconciler_schema :: "frame \<Rightarrow> frame \<Rightarrow> bool" where
  "reconciler_schema sheet1 sheet2 =
     (let llabels = left_labels ''shipment_identifier'' (columns sheet1) (columns sheet2);
          rlabels = right_labels ''shipment_identifier'' (columns sheet1) (columns sheet2);
          labels = map (rename_label merge_renames) (llabels @ rlabels)
      in distinct llabels \<and> distinct rlabels \<and>
         list_all (\<lambda>n. length (positions n labels) = 1) group_columns \<and>
         ''on_time'' \<in> set labels)"

section \<open>The run: both outputs appended to the table\<close>

text \<open>
  \<^verbatim>\<open>to_sql('shipments', conn, if_exists='append', index=False)\<close> adds the rows of the frame
  after the rows the table holds; a table that does not exist yet is created and counts
  as holding no row. Whether the storage accepts the write is outside the script: it is
  the parameter \<open>accepts\<close>, and a refused write raises.
\<close>

type_synonym table = "cell list list"

definition to_sql :: "(frame \<Rightarrow> table \<Rightarrow> bool) \<Rightarrow> frame \<Rightarrow> table \<Rightarrow> error + table" where
  "to_sql accepts df t = (if accepts df t then Inr (t @ rows df) else Inl StorageError)"

text \<open>
  \<^verbatim>\<open>main\<close> from the three frames read and the table as it stands: the exception that
  ended the run, if any, and the table afterwards. Each \<^verbatim>\<open>to_sql\<close> commits its own
  write, so the first append stays when a later step raises.
\<close>

definition main :: "(frame \<Rightarrow> table \<Rightarrow> bool) \<Rightarrow> frame \<Rightarrow> frame \<Rightarrow> frame \<Rightarrow> table \<Rightarrow> error option \<times> table" where
  "main accepts sheet0 sheet1 sheet2 t =
     (case direct_mapper sheet0 of
        Inl e \<Rightarrow> (Some e, t)
      | Inr sheet0_clean \<Rightarrow>
          (case to_sql accepts sheet0_clean t of
             Inl e \<Rightarrow> (Some e, t)
           | Inr t1 \<Rightarrow>
               (case reconciler sheet1 sheet2 of
                  Inl e \<Rightarrow> (Some e, t1)
                | Inr shipment_summary \<Rightarrow>
                    (case to_sql accepts shipment_summary t1 of
                       Inl e \<Rightarrow> (Some e, t1)
                     | Inr t2 \<Rightarrow> (None, t2)))))"

section \<open>What the claims speak of\<close>

text \<open>The invariant the spec states for the quantity of a shipment record: a positive integer.\<close>

definition positive_quantity :: "cell \<Rightarrow> bool" where
  "positive_quantity c = (case c of IntV n \<Rightarrow> 0 < n | _ \<Rightarrow> False)"

text \<open>
  The keys of the groups of the joined table \<open>M\<close>, as \<^verbatim>\<open>groupby\<close> orders them, and the
  summary row of one key: the key, the sum of the quantities of its rows, the first
  \<^verbatim>\<open>on_time\<close> of its rows that is not missing, and the placeholder driver. The
  reconciler's output is shown below to consist of exactly these rows.
\<close>

definition summary_keys :: "frame \<Rightarrow> cell list list" where
  "summary_keys M = sort (remdups (map (agg_key M) [r \<leftarrow> rows M. NaN \<notin> set (agg_key M r)]))"

definition summary_row :: "frame \<Rightarrow> cell list \<Rightarrow> cell list" where
  "summary_row M k =
     k @ [IntV (sum_list (map (\<lambda>r. cell_int (cell_at M ''quantity'' r)) [r \<leftarrow> rows M. agg_key M r = k])),
          agg_first (map (cell_at M ''on_time'') [r \<leftarrow> rows M. agg_key M r = k]),
          StrV ''unknown'']"

section \<open>Example tables\<close>

text \<open>The second end-to-end example of the spec, with one more column that the mapper drops.\<close>

definition sheet0_example :: frame where
  "sheet0_example =
     \<lparr>columns = [''origin_warehouse'', ''destination_store'', ''product'', ''product_quantity'',
                 ''on_time'', ''driver_identifier'', ''region''],
      rows = [[StrV ''W2'', StrV ''S2'', StrV ''Gadget'', IntV 5, BoolV False, StrV ''D9'',
               StrV ''north'']]\<rparr>"

text \<open>The same shipment in a file that has a column \<^verbatim>\<open>quantity\<close> besides \<^verbatim>\<open>product_quantity\<close>.\<close>

definition sheet0_stray_quantity :: frame where
  "sheet0_stray_quantity =
     \<lparr>columns = [''origin_warehouse'', ''destination_store'', ''product'', ''product_quantity'',
                 ''on_time'', ''driver_identifier'', ''quantity''],
      rows = [[StrV ''W2'', StrV ''S2'', StrV ''Gadget'', IntV 5, BoolV False, StrV ''D9'', IntV 7]]\<rparr>"

text \<open>A file whose header already says \<^verbatim>\<open>origin\<close> and has no \<^verbatim>\<open>origin_warehouse\<close>.\<close>

definition sheet0_target_named :: frame where
  "sheet0_target_named =
     \<lparr>columns = [''origin'', ''destination_store'', ''product'', ''product_quantity'', ''on_time'',
                 ''driver_identifier''],
      rows = [[StrV ''W2'', StrV ''S2'', StrV ''Gadget'', IntV 5, BoolV False, StrV ''D9'']]\<rparr>"

text \<open>A file without the destination and the punctuality flag.\<close>

definition sheet0_incomplete :: frame where
  "sheet0_incomplete =
     \<lparr>columns = [''origin_warehouse'', ''product'', ''product_quantity'', ''driver_identifier''],
      rows = [[StrV ''W2'', StrV ''Gadget'', IntV 5, StrV ''D9'']]\<rparr>"

text \<open>A shipment recorded with the quantity 0.\<close>

definition sheet0_zero_quantity :: frame where
  "sheet0_zero_quantity =
     \<lparr>columns = [''origin_warehouse'', ''destination_store'', ''product'', ''product_quantity'',
                 ''on_time'', ''driver_identifier''],
      rows = [[StrV ''W2'', StrV ''S2'', StrV ''Gadget'', IntV 0, BoolV False, StrV ''D9'']]\<rparr>"

text \<open>The first end-to-end example of the spec: two shipments of one product on one route.\<close>

definition sheet1_example :: frame where
  "sheet1_example =
     \<lparr>columns = [''shipment_identifier'', ''origin_warehouse'', ''destination_store'', ''product''],
      rows = [[IntV 1, StrV ''W1'', StrV ''S1'', StrV ''Widget''],
              [IntV 2, StrV ''W1'', StrV ''S1'', StrV ''Widget'']]\<rparr>"

definition sheet2_example :: frame where
  "sheet2_example =
     \<lparr>columns = [''shipment_identifier'', ''on_time''],
      rows = [[IntV 1, BoolV True], [IntV 2, BoolV True]]\<rparr>"

definition summary_example :: frame where
  "summary_example =
     \<lparr>columns = shipment_columns,
      rows = [[StrV ''W1'', StrV ''S1'', StrV ''Widget'', IntV 2, BoolV True, StrV ''unknown'']]\<rparr>"

text \<open>
  Five shipment lines on three routes, not in key order, with a column \<^verbatim>\<open>quantity\<close> of
  their own and one missing product; the status table lists shipment 2 twice, first
  without a punctuality flag, and a shipment 4 that has no line.
\<close>

definition sheet1_mixed :: frame where
  "sheet1_mixed =
     \<lparr>columns = [''shipment_identifier'', ''origin_warehouse'', ''destination_store'', ''product'',
                 ''quantity''],
      rows = [[IntV 1, StrV ''W2'', StrV ''S1'', StrV ''Widget'', IntV 40],
              [IntV 2, StrV ''W1'', StrV ''S1'', StrV ''Widget'', IntV 40],
              [IntV 2, StrV ''W1'', StrV ''S1'', StrV ''Gadget'', IntV 40],
              [IntV 3, StrV ''W1'', StrV ''S1'', NaN, IntV 40],
              [IntV 1, StrV ''W1'', StrV ''S1'', StrV ''Widget'', IntV 40]]\<rparr>"

definition sheet2_mixed :: frame where
  "sheet2_mixed =
     \<lparr>columns = [''on_time'', ''shipment_identifier''],
      rows = [[NaN, IntV 2], [BoolV False, IntV 1], [BoolV True, IntV 2], [BoolV True, IntV 3],
              [BoolV True, IntV 4]]\<rparr>"

definition merged_mixed :: frame where
  "merged_mixed =
     \<lparr>columns = [''shipment_identifier'', ''origin_warehouse'', ''destination_store'', ''product'',
                 ''quantity'', ''on_time''],
      rows = [[IntV 1, StrV ''W2'', StrV ''S1'', StrV ''Widget'', IntV 40, BoolV False],
              [IntV 2, StrV ''W1'', StrV ''S1'', StrV ''Widget'', IntV 40, NaN],
              [IntV 2, StrV ''W1'', StrV ''S1'', StrV ''Widget'', IntV 40, BoolV True],
              [IntV 2, StrV ''W1'', StrV ''S1'', StrV ''Gadget'', IntV 40, NaN],
              [IntV 2, StrV ''W1'', StrV ''S1'', StrV ''Gadget'', IntV 40, BoolV True],
              [IntV 3, StrV ''W1'', StrV ''S1'', NaN, IntV 40, BoolV True],
              [IntV 1, StrV ''W1'', StrV ''S1'', StrV ''Widget'', IntV 40, BoolV False]]\<rparr>"

definition summary_mixed :: frame where
  "summary_mixed =
     \<lparr>columns = shipment_columns,
      rows = [[StrV ''W1'', StrV ''S1'', StrV ''Gadget'', IntV 2, BoolV True, StrV ''unknown''],
              [StrV ''W1'', StrV ''S1'', StrV ''Widget'', IntV 3, BoolV True, StrV ''unknown''],
              [StrV ''W2'', StrV ''S1'', StrV ''Widget'', IntV 1, BoolV False, StrV ''unknown'']]\<rparr>"

text \<open>A shipment line whose product is missing.\<close>

definition sheet1_no_product :: frame where
  "sheet1_no_product =
     \<lparr>columns = [''shipment_identifier'', ''origin_warehouse'', ''destination_store'', ''product''],
      rows = [[IntV 1, StrV ''W1'', StrV ''S1'', NaN]]\<rparr>"

definition merged_no_product :: frame where
  "merged_no_product =
     \<lparr>columns = [''shipment_identifier'', ''origin_warehouse'', ''destination_store'', ''product'',
                 ''on_time''],
      rows = [[IntV 1, StrV ''W1'', StrV ''S1'', NaN, BoolV True]]\<rparr>"

text \<open>A status table whose first row has no punctuality flag.\<close>

definition sheet2_first_missing :: frame where
  "sheet2_first_missing =
     \<lparr>columns = [''shipment_identifier'', ''on_time''],
      rows = [[IntV 1, NaN], [IntV 2, BoolV True]]\<rparr>"

definition merged_first_missing :: frame where
  "merged_first_missing =
     \<lparr>columns = [''shipment_identifier'', ''origin_warehouse'', ''destination_store'', ''product'',
                 ''on_time''],
      rows = [[IntV 1, StrV ''W1'', StrV ''S1'', StrV ''Widget'', NaN],
              [IntV 2, StrV ''W1'', StrV ''S1'', StrV ''Widget'', BoolV True]]\<rparr>"

text \<open>
  Four shipments whose status rows disagree: three of them share one route and product,
  the first of these was on time and the two later ones were late.
\<close>

definition sheet1_conflict :: frame where
  "sheet1_conflict =
     \<lparr>columns = [''shipment_identifier'', ''origin_warehouse'', ''destination_store'', ''product''],
      rows = [[IntV 1, StrV ''W1'', StrV ''S1'', StrV ''Widget''],
              [IntV 2, StrV ''W2'', StrV ''S1'', StrV ''Widget''],
              [IntV 3, StrV ''W1'', StrV ''S1'', StrV ''Widget''],
              [IntV 4, StrV ''W1'', StrV ''S1'', StrV ''Widget'']]\<rparr>"

definition sheet2_conflict :: frame where
  "sheet2_conflict =
     \<lparr>columns = [''shipment_identifier'', ''on_time''],
      rows = [[IntV 1, BoolV True], [IntV 2, BoolV False], [IntV 3, BoolV False],
              [IntV 4, BoolV False]]\<rparr>"

definition merged_conflict :: frame where
  "merged_conflict =
     \<lparr>columns = [''shipment_identifier'', ''origin_warehouse'', ''destination_store'', ''product'',
                 ''on_time''],
      rows = [[IntV 1, StrV ''W1'', StrV ''S1'', StrV ''Widget'', BoolV True],
              [IntV 2, StrV ''W2'', StrV ''S1'', StrV ''Widget'', BoolV False],
              [IntV 3, StrV ''W1'', StrV ''S1'', StrV ''Widget'', BoolV False],
              [IntV 4, StrV ''W1'', StrV ''S1'', StrV ''Widget'', BoolV False]]\<rparr>"

definition summary_conflict :: frame where
  "summary_conflict =
     \<lparr>columns = shipment_columns,
      rows = [[StrV ''W1'', StrV ''S1'', StrV ''Widget'', IntV 3, BoolV True, StrV ''unknown''],
              [StrV ''W2'', StrV ''S1'', StrV ''Widget'', IntV 1, BoolV False, StrV ''unknown'']]\<rparr>"

text \<open>Status tables for other shipments: one identified by text, one by other numbers.\<close>

definition sheet2_text_ids :: frame where
  "sheet2_text_ids =
     \<lparr>columns = [''shipment_identifier'', ''on_time''],
      rows = [[StrV ''SHP-1'', BoolV True]]\<rparr>"

definition sheet2_other_ids :: frame where
  "sheet2_other_ids =
     \<lparr>columns = [''shipment_identifier'', ''on_time''],
      rows = [[IntV 3, BoolV True], [IntV 4, BoolV False]]\<rparr>"

text \<open>The table after an earlier run: one shipment is already stored.\<close>

definition table_before :: table where
  "table_before = [[StrV ''W9'', StrV ''S9'', StrV ''Bolt'', IntV 1, BoolV True, StrV ''D1'']]"

section \<open>Positions of labels\<close>

lemma positions_map:
  "positions n (map f cols) = [i \<leftarrow> [0..<length cols]. f (cols ! i) = n]"
  unfolding positions_def by (auto intro: filter_cong)

lemma index_of_less: "n \<in> set cols \<Longrightarrow> index_of n cols < length cols"
  by (induction cols) auto

lemma index_of_nth: "n \<in> set cols \<Longrightarrow> cols ! index_of n cols = n"
  by (induction cols) auto

lemma index_of_unique:
  "distinct cols \<Longrightarrow> i < length cols \<Longrightarrow> cols ! i = n \<Longrightarrow> index_of n cols = i"
proof (induction cols arbitrary: i)
  case Nil
  then show ?case by simp
next
  case (Cons c cs)
  then show ?case by (cases i) auto
qed

lemma filter_upt_single:
  assumes "k < m" and "\<And>i. i < m \<Longrightarrow> P i \<longleftrightarrow> i = k"
  shows "[i \<leftarrow> [0..<m]. P i] = [k]"
proof -
  have "[i \<leftarrow> [0..<m]. P i] = [i \<leftarrow> [0..<m]. i = k]"
    using assms(2) by (auto intro: filter_cong)
  also have "\<dots> = [k]"
    using assms(1) by (induction m) auto
  finally show ?thesis .
qed

lemma positions_distinct:
  assumes "distinct cols" "n \<in> set cols"
  shows "positions n cols = [index_of n cols]"
  unfolding positions_def
  by (rule filter_upt_single)
     (use assms in \<open>auto simp: index_of_less index_of_nth index_of_unique\<close>)

lemma positions_renamed:
  assumes "distinct cols" "s \<in> set cols" "\<And>c. c \<in> set cols \<Longrightarrow> f c = n \<longleftrightarrow> c = s"
  shows "positions n (map f cols) = [index_of s cols]"
proof -
  have "positions n (map f cols) = [i \<leftarrow> [0..<length cols]. cols ! i = s]"
    unfolding positions_map by (rule filter_cong) (use assms(3) in auto)
  then show ?thesis
    using positions_distinct [OF assms(1,2)] by (simp add: positions_def)
qed

section \<open>The direct mapper: results\<close>

lemma sheet0_label:
  "rename_label sheet0_renames c =
     (if c = ''origin_warehouse'' then ''origin''
      else if c = ''destination_store'' then ''destination''
      else if c = ''product'' then ''product_name''
      else if c = ''product_quantity'' then ''quantity'' else c)"
  by (simp add: rename_label_def sheet0_renames_def)

lemma image_target:
  assumes "\<And>c. f c = t \<longleftrightarrow> c = s \<or> c = t"
  shows "t \<in> f ` S \<longleftrightarrow> s \<in> S \<or> t \<in> S"
  unfolding image_iff using assms by metis

lemma sheet0_label_eq:
  "rename_label sheet0_renames c = ''origin'' \<longleftrightarrow> c = ''origin_warehouse'' \<or> c = ''origin''"
  "rename_label sheet0_renames c = ''destination'' \<longleftrightarrow> c = ''destination_store'' \<or> c = ''destination''"
  "rename_label sheet0_renames c = ''product_name'' \<longleftrightarrow> c = ''product'' \<or> c = ''product_name''"
  "rename_label sheet0_renames c = ''quantity'' \<longleftrightarrow> c = ''product_quantity'' \<or> c = ''quantity''"
  "rename_label sheet0_renames c = ''on_time'' \<longleftrightarrow> c = ''on_time'' \<or> c = ''on_time''"
  "rename_label sheet0_renames c = ''driver_identifier'' \<longleftrightarrow>
     c = ''driver_identifier'' \<or> c = ''driver_identifier''"
  unfolding sheet0_label by (simp_all split: if_splits)

lemma sheet0_targets_in:
  "''origin'' \<in> rename_label sheet0_renames ` S \<longleftrightarrow> ''origin_warehouse'' \<in> S \<or> ''origin'' \<in> S"
  "''destination'' \<in> rename_label sheet0_renames ` S \<longleftrightarrow>
     ''destination_store'' \<in> S \<or> ''destination'' \<in> S"
  "''product_name'' \<in> rename_label sheet0_renames ` S \<longleftrightarrow> ''product'' \<in> S \<or> ''product_name'' \<in> S"
  "''quantity'' \<in> rename_label sheet0_renames ` S \<longleftrightarrow> ''product_quantity'' \<in> S \<or> ''quantity'' \<in> S"
  "''on_time'' \<in> rename_label sheet0_renames ` S \<longleftrightarrow> ''on_time'' \<in> S"
  "''driver_identifier'' \<in> rename_label sheet0_renames ` S \<longleftrightarrow> ''driver_identifier'' \<in> S"
  using image_target [OF sheet0_label_eq(1), of S] image_target [OF sheet0_label_eq(2), of S]
    image_target [OF sheet0_label_eq(3), of S] image_target [OF sheet0_label_eq(4), of S]
    image_target [OF sheet0_label_eq(5), of S] image_target [OF sheet0_label_eq(6), of S]
  by blast+

lemma direct_mapper_cases:
  "direct_mapper A =
     (let cols = map (rename_label sheet0_renames) (columns A);
          missing = [n \<leftarrow> shipment_columns. n \<notin> set cols] in
      if missing \<noteq> [] then Inl (KeyError missing)
      else Inr \<lparr>columns = map ((!) cols) (concat (map (\<lambda>n. positions n cols) shipment_columns)),
                rows = map (\<lambda>r. map ((!) r) (concat (map (\<lambda>n. positions n cols) shipment_columns)))
                           (rows A)\<rparr>)"
  by (simp add: direct_mapper_def getitem_list_def rename_columns_def Let_def)

lemma sheet0_missing_Nil:
  "[n \<leftarrow> shipment_columns. n \<notin> rename_label sheet0_renames ` set cols] = [] \<longleftrightarrow>
      (''origin_warehouse'' \<in> set cols \<or> ''origin'' \<in> set cols) \<and>
      (''destination_store'' \<in> set cols \<or> ''destination'' \<in> set cols) \<and>
      (''product'' \<in> set cols \<or> ''product_name'' \<in> set cols) \<and>
      (''product_quantity'' \<in> set cols \<or> ''quantity'' \<in> set cols) \<and>
      ''on_time'' \<in> set cols \<and> ''driver_identifier'' \<in> set cols"
  unfolding filter_empty_conv shipment_columns_def
  by (simp add: sheet0_targets_in)

lemma direct_mapper_rows:
  assumes wf: "wf_frame A"
    and src: "set source_columns \<subseteq> set (columns A)"
    and tgt: "set [''origin'', ''destination'', ''product_name'', ''quantity''] \<inter> set (columns A) = {}"
  shows "direct_mapper A =
     Inr \<lparr>columns = shipment_columns,
          rows = map (\<lambda>r. map (\<lambda>n. cell_at A n r) source_columns) (rows A)\<rparr>"
proof -
  let ?f = "rename_label sheet0_renames"
  let ?cols = "columns A"
  have d: "distinct ?cols" using wf by (simp add: wf_frame_def)
  have nt: "''origin'' \<notin> set ?cols" "''destination'' \<notin> set ?cols"
    "''product_name'' \<notin> set ?cols" "''quantity'' \<notin> set ?cols"
    using tgt by auto
  have ins: "''origin_warehouse'' \<in> set ?cols" "''destination_store'' \<in> set ?cols"
    "''product'' \<in> set ?cols" "''product_quantity'' \<in> set ?cols"
    "''on_time'' \<in> set ?cols" "''driver_identifier'' \<in> set ?cols"
    using src by (auto simp: source_columns_def)
  have p1: "positions ''origin'' (map ?f ?cols) = [index_of ''origin_warehouse'' ?cols]"
    by (rule positions_renamed [OF d ins(1)]) (use nt in \<open>auto simp: sheet0_label\<close>)
  have p2: "positions ''destination'' (map ?f ?cols) = [index_of ''destination_store'' ?cols]"
    by (rule positions_renamed [OF d ins(2)]) (use nt in \<open>auto simp: sheet0_label\<close>)
  have p3: "positions ''product_name'' (map ?f ?cols) = [index_of ''product'' ?cols]"
    by (rule positions_renamed [OF d ins(3)]) (use nt in \<open>auto simp: sheet0_label\<close>)
  have p4: "positions ''quantity'' (map ?f ?cols) = [index_of ''product_quantity'' ?cols]"
    by (rule positions_renamed [OF d ins(4)]) (use nt in \<open>auto simp: sheet0_label\<close>)
  have p5: "positions ''on_time'' (map ?f ?cols) = [index_of ''on_time'' ?cols]"
    by (rule positions_renamed [OF d ins(5)]) (use nt in \<open>auto simp: sheet0_label\<close>)
  have p6: "positions ''driver_identifier'' (map ?f ?cols) = [index_of ''driver_identifier'' ?cols]"
    by (rule positions_renamed [OF d ins(6)]) (use nt in \<open>auto simp: sheet0_label\<close>)
  have miss: "[n \<leftarrow> shipment_columns. n \<notin> set (map ?f ?cols)] = []"
    using sheet0_missing_Nil [of ?cols] ins by simp
  have nth: "\<And>s. s \<in> set ?cols \<Longrightarrow> map ?f ?cols ! index_of s ?cols = ?f s"
    by (simp add: index_of_less index_of_nth)
  show ?thesis
    unfolding direct_mapper_def getitem_list_def rename_columns_def Let_def
    using miss
    apply (simp del: set_map)
    apply (simp add: shipment_columns_def p1 p2 p3 p4 p5 p6 nth ins sheet0_label
        source_columns_def cell_at_def)
    done
qed

text \<open>
  \<^bold>\<open>Claim C2\<close>, as stated, fails: a column of the input that already bears a target label
  is an extra field the mapper does not drop. The table \<open>sheet0_stray_quantity\<close> has all
  six required fields and a column \<^verbatim>\<open>quantity\<close>; after the renaming two columns are
  labelled \<^verbatim>\<open>quantity\<close>, the selection returns both, and the output row has seven cells.
\<close>

theorem direct_mapper_extra_kept:
  "set source_columns \<subseteq> set (columns sheet0_stray_quantity) \<and>
   direct_mapper sheet0_stray_quantity =
     Inr \<lparr>columns = [''origin'', ''destination'', ''product_name'', ''quantity'', ''quantity'',
                     ''on_time'', ''driver_identifier''],
          rows = [[StrV ''W2'', StrV ''S2'', StrV ''Gadget'', IntV 5, IntV 7, BoolV False,
                   StrV ''D9'']]\<rparr>"
  by (simp add: direct_mapper_def getitem_list_def rename_columns_def rename_label_def
      sheet0_renames_def shipment_columns_def positions_def sheet0_stray_quantity_def
      source_columns_def)

text \<open>
  \<^bold>\<open>Claim C2\<close>, amended: for every table \<open>A\<close> as read from a file (distinct labels, one
  cell per label) that has the six required fields and no column already labelled
  \<^verbatim>\<open>origin\<close>, \<^verbatim>\<open>destination\<close>, \<^verbatim>\<open>product_name\<close> or \<^verbatim>\<open>quantity\<close>, the mapper succeeds, its
  output has the six shipment columns and as many rows as \<open>A\<close>, and row \<open>i\<close> of the output
  is row \<open>i\<close> of \<open>A\<close> restricted to the six fields: the four renamed ones, then
  \<^verbatim>\<open>on_time\<close> and \<^verbatim>\<open>driver_identifier\<close> unchanged. Every other column of \<open>A\<close> is dropped.
\<close>

theorem direct_mapper_row_preservation:
  assumes "wf_frame A"
    and "set source_columns \<subseteq> set (columns A)"
    and "set [''origin'', ''destination'', ''product_name'', ''quantity''] \<inter> set (columns A) = {}"
  shows "\<exists>out. direct_mapper A = Inr out \<and> columns out = shipment_columns \<and>
           length (rows out) = length (rows A) \<and>
           (\<forall>i < length (rows A).
              rows out ! i =
                [cell_at A ''origin_warehouse'' (rows A ! i),
                 cell_at A ''destination_store'' (rows A ! i),
                 cell_at A ''product'' (rows A ! i),
                 cell_at A ''product_quantity'' (rows A ! i),
                 cell_at A ''on_time'' (rows A ! i),
                 cell_at A ''driver_identifier'' (rows A ! i)])"
  unfolding direct_mapper_rows [OF assms] by (simp add: source_columns_def)

theorem direct_mapper_row_preservation_witness:
  "wf_frame sheet0_example \<and>
   set source_columns \<subseteq> set (columns sheet0_example) \<and>
   set [''origin'', ''destination'', ''product_name'', ''quantity''] \<inter> set (columns sheet0_example) = {} \<and>
   direct_mapper sheet0_example =
     Inr \<lparr>columns = shipment_columns,
          rows = [[StrV ''W2'', StrV ''S2'', StrV ''Gadget'', IntV 5, BoolV False, StrV ''D9'']]\<rparr>"
proof -
  have h1: "wf_frame sheet0_example"
    by (simp add: wf_frame_def sheet0_example_def)
  have h2: "set source_columns \<subseteq> set (columns sheet0_example)"
    by (simp add: sheet0_example_def source_columns_def)
  have h3: "set [''origin'', ''destination'', ''product_name'', ''quantity'']
              \<inter> set (columns sheet0_example) = {}"
    by (simp add: sheet0_example_def)
  from direct_mapper_row_preservation [OF h1 h2 h3]
  obtain out where o: "direct_mapper sheet0_example = Inr out" "columns out = shipment_columns"
    "length (rows out) = length (rows sheet0_example)"
    "\<forall>i < length (rows sheet0_example).
       rows out ! i =
         [cell_at sheet0_example ''origin_warehouse'' (rows sheet0_example ! i),
          cell_at sheet0_example ''destination_store'' (rows sheet0_example ! i),
          cell_at sheet0_example ''product'' (rows sheet0_example ! i),
          cell_at sheet0_example ''product_quantity'' (rows sheet0_example ! i),
          cell_at sheet0_example ''on_time'' (rows sheet0_example ! i),
          cell_at sheet0_example ''driver_identifier'' (rows sheet0_example ! i)]"
    by blast
  have len: "length (rows out) = 1"
    using o(3) by (simp add: sheet0_example_def)
  have "rows out ! 0 = [StrV ''W2'', StrV ''S2'', StrV ''Gadget'', IntV 5, BoolV False, StrV ''D9'']"
    using o(4) by (simp add: sheet0_example_def cell_at_def)
  with len have "rows out = [[StrV ''W2'', StrV ''S2'', StrV ''Gadget'', IntV 5, BoolV False, StrV ''D9'']]"
    by (cases "rows out") auto
  with o(2) have "out = \<lparr>columns = shipment_columns,
      rows = [[StrV ''W2'', StrV ''S2'', StrV ''Gadget'', IntV 5, BoolV False, StrV ''D9'']]\<rparr>"
    by (cases out) simp
  with o(1) h1 h2 h3 show ?thesis by simp
qed

text \<open>
  \<^bold>\<open>Claim C6\<close>, as stated, fails: the renaming ignores a source label that is not there,
  and the selection only asks for the target labels. The table \<open>sheet0_target_named\<close>
  has no field \<^verbatim>\<open>origin_warehouse\<close>, yet the mapper succeeds on it, because a column is
  already labelled \<^verbatim>\<open>origin\<close>.
\<close>

theorem direct_mapper_accepts_target_label:
  "''origin_warehouse'' \<notin> set (columns sheet0_target_named) \<and>
   direct_mapper sheet0_target_named =
     Inr \<lparr>columns = shipment_columns,
          rows = [[StrV ''W2'', StrV ''S2'', StrV ''Gadget'', IntV 5, BoolV False, StrV ''D9'']]\<rparr>"
  by (simp add: direct_mapper_def getitem_list_def rename_columns_def rename_label_def
      sheet0_renames_def shipment_columns_def positions_def sheet0_target_named_def)

text \<open>
  \<^bold>\<open>Claim C6\<close>, amended: the mapper succeeds exactly when each of the six shipment
  columns can be found after the renaming, that is when \<^verbatim>\<open>on_time\<close> and
  \<^verbatim>\<open>driver_identifier\<close> label columns of the input and, for each of the four renamed
  fields, its source label or its target label does. In every other case, and in no
  other, it fails, and the failure is the \<^verbatim>\<open>KeyError\<close> of the selection (the spec's
  SchemaMismatch), which names the shipment columns that could not be found.
\<close>

theorem direct_mapper_fails_iff:
  "((\<exists>out. direct_mapper A = Inr out) \<longleftrightarrow>
      (''origin_warehouse'' \<in> set (columns A) \<or> ''origin'' \<in> set (columns A)) \<and>
      (''destination_store'' \<in> set (columns A) \<or> ''destination'' \<in> set (columns A)) \<and>
      (''product'' \<in> set (columns A) \<or> ''product_name'' \<in> set (columns A)) \<and>
      (''product_quantity'' \<in> set (columns A) \<or> ''quantity'' \<in> set (columns A)) \<and>
      ''on_time'' \<in> set (columns A) \<and> ''driver_identifier'' \<in> set (columns A)) \<and>
   (\<forall>e. direct_mapper A = Inl e \<longrightarrow>
      e = KeyError [n \<leftarrow> shipment_columns.
                      n \<notin> rename_label sheet0_renames ` set (columns A)])"
  unfolding sheet0_missing_Nil [symmetric] direct_mapper_cases Let_def
  by auto

theorem direct_mapper_fails_iff_witness:
  "(\<nexists>out. direct_mapper sheet0_incomplete = Inr out) \<and>
   direct_mapper sheet0_incomplete = Inl (KeyError [''destination'', ''on_time''])"
proof -
  have e: "direct_mapper sheet0_incomplete = Inl (KeyError [''destination'', ''on_time''])"
    by (simp add: direct_mapper_def getitem_list_def rename_columns_def rename_label_def
        sheet0_renames_def shipment_columns_def sheet0_incomplete_def)
  have "\<nexists>out. direct_mapper sheet0_incomplete = Inr out"
    using direct_mapper_fails_iff [of sheet0_incomplete]
    by (simp add: sheet0_incomplete_def)
  with e show ?thesis by simp
qed

section \<open>The reconciler: the shape of its output\<close>

lemma groupby_agg_Inr:
  assumes "groupby_agg by s f df = Inr out"
  shows "out = \<lparr>columns = by @ [s, f],
      rows = map (\<lambda>k. k @ [IntV (sum_list (map (\<lambda>r. cell_int (cell_at df s r))
                                                [r \<leftarrow> rows df. group_key by df r = k])),
                             agg_first (map (cell_at df f) [r \<leftarrow> rows df. group_key by df r = k])])
                 (sort (remdups (map (group_key by df) [r \<leftarrow> rows df. NaN \<notin> set (group_key by df r)])))\<rparr>"
proof -
  let ?kept = "[r \<leftarrow> rows df. NaN \<notin> set (group_key by df r)]"
  have grp: "[r \<leftarrow> ?kept. group_key by df r = k] = [r \<leftarrow> rows df. group_key by df r = k]"
    if "k \<in> set (map (group_key by df) ?kept)" for k
    using that by (auto intro: filter_cong)
  have "out = \<lparr>columns = by @ [s, f],
      rows = map (\<lambda>k. k @ [IntV (sum_list (map (\<lambda>r. cell_int (cell_at df s r))
                                                [r \<leftarrow> ?kept. group_key by df r = k])),
                             agg_first (map (cell_at df f) [r \<leftarrow> ?kept. group_key by df r = k])])
                 (sort (remdups (map (group_key by df) ?kept)))\<rparr>"
    using assms unfolding groupby_agg_def Let_def
    by (auto split: list.splits if_splits)
  also have "\<dots> = \<lparr>columns = by @ [s, f],
      rows = map (\<lambda>k. k @ [IntV (sum_list (map (\<lambda>r. cell_int (cell_at df s r))
                                                [r \<leftarrow> rows df. group_key by df r = k])),
                             agg_first (map (cell_at df f) [r \<leftarrow> rows df. group_key by df r = k])])
                 (sort (remdups (map (group_key by df) ?kept)))\<rparr>"
    using grp by (auto simp del: set_map)
  finally show ?thesis .
qed

lemma nths_six: "length r = 6 \<Longrightarrow> map ((!) r) [0, 1, 2, 3, 4, 5] = r"
  by (auto simp: list_eq_iff_nth_eq less_Suc_eq numeral_eq_Suc nth_Cons')

lemma shipment_positions:
  "concat (map (\<lambda>n. positions n shipment_columns) shipment_columns) = [0, 1, 2, 3, 4, 5]"
  by (simp add: positions_def shipment_columns_def)

lemma getitem_shipment_columns:
  assumes "columns df = shipment_columns" "\<And>r. r \<in> set (rows df) \<Longrightarrow> length r = 6"
  shows "getitem_list shipment_columns df = Inr df"
proof -
  have r: "map (\<lambda>r. map ((!) r) [0, 1, 2, 3, 4, 5]) (rows df) = rows df"
    by (rule map_idI) (use assms(2) nths_six in blast)
  have c: "map ((!) shipment_columns) [0, 1, 2, 3, 4, 5] = shipment_columns"
    by (simp add: shipment_columns_def)
  show ?thesis
    unfolding getitem_list_def Let_def assms(1) shipment_positions r c
    using assms(1) by (cases df) simp
qed

lemma agg_key_length: "length (agg_key M r) = 3"
  by (simp add: agg_key_def group_key_def group_columns_def)

lemma reconciler_Inr:
  assumes "reconciler B C = Inr out"
  shows "\<exists>J. merge ''shipment_identifier'' B C = Inr J \<and>
             out = \<lparr>columns = shipment_columns,
                    rows = map (summary_row (merged_mapped J)) (summary_keys (merged_mapped J))\<rparr>"
proof -
  from assms obtain J S where J: "merge ''shipment_identifier'' B C = Inr J"
    and S: "groupby_agg group_columns ''quantity'' ''on_time'' (merged_mapped J) = Inr S"
    and out: "getitem_list shipment_columns (setitem ''driver_identifier'' (StrV ''unknown'') S) = Inr out"
    unfolding reconciler_def by (auto split: sum.splits)
  let ?M = "merged_mapped J"
  let ?D = "setitem ''driver_identifier'' (StrV ''unknown'') S"
  note Seq = groupby_agg_Inr [OF S]
  have cS: "columns S = group_columns @ [''quantity'', ''on_time'']"
    by (subst Seq) simp
  have rS: "rows S = map (\<lambda>k. k @ [IntV (sum_list (map (\<lambda>r. cell_int (cell_at ?M ''quantity'' r))
                                                [r \<leftarrow> rows ?M. group_key group_columns ?M r = k])),
                             agg_first (map (cell_at ?M ''on_time'') [r \<leftarrow> rows ?M. group_key group_columns ?M r = k])])
                 (sort (remdups (map (group_key group_columns ?M) [r \<leftarrow> rows ?M. NaN \<notin> set (group_key group_columns ?M r)])))"
    by (subst Seq) simp
  have cD: "columns ?D = shipment_columns"
    by (simp add: setitem_def cS group_columns_def shipment_columns_def)
  have rD: "rows ?D = map (summary_row ?M) (summary_keys ?M)"
    unfolding summary_keys_def
    by (simp add: setitem_def cS group_columns_def rS summary_row_def agg_key_def [abs_def])
  have len: "length r = 6" if "r \<in> set (rows ?D)" for r
    using that unfolding rD summary_keys_def
    by (auto simp: summary_row_def agg_key_length)
  have "out = ?D"
    using getitem_shipment_columns [OF cD len] out by simp
  then have "out = \<lparr>columns = shipment_columns,
                    rows = map (summary_row ?M) (summary_keys ?M)\<rparr>"
    using cD rD by (cases out) simp
  with J show ?thesis by blast
qed

lemma summary_keys_set:
  "set (summary_keys M) = {agg_key M r | r. r \<in> set (rows M) \<and> NaN \<notin> set (agg_key M r)}"
  unfolding summary_keys_def by auto

lemma summary_keys_strict: "sorted_wrt (<) (summary_keys M)"
  unfolding summary_keys_def strict_sorted_iff by simp

lemma summary_keys_length: "k \<in> set (summary_keys M) \<Longrightarrow> length k = 3"
  unfolding summary_keys_set by (auto simp: agg_key_length)

lemma shipment_index:
  "index_of ''origin'' shipment_columns = 0"
  "index_of ''destination'' shipment_columns = 1"
  "index_of ''product_name'' shipment_columns = 2"
  "index_of ''quantity'' shipment_columns = 3"
  "index_of ''on_time'' shipment_columns = 4"
  "index_of ''driver_identifier'' shipment_columns = 5"
  by (simp_all add: shipment_columns_def)

lemma summary_row_fields:
  assumes "length k = 3" "columns out = shipment_columns"
  shows "agg_key out (summary_row M k) = k"
    and "cell_at out ''quantity'' (summary_row M k) =
           IntV (sum_list (map (\<lambda>r. cell_int (cell_at M ''quantity'' r)) [r \<leftarrow> rows M. agg_key M r = k]))"
    and "cell_at out ''on_time'' (summary_row M k) =
           agg_first (map (cell_at M ''on_time'') [r \<leftarrow> rows M. agg_key M r = k])"
    and "cell_at out ''driver_identifier'' (summary_row M k) = StrV ''unknown''"
proof -
  from assms(1) obtain a b c where k: "k = [a, b, c]"
    by (auto simp: length_Suc_conv numeral_3_eq_3)
  show "agg_key out (summary_row M k) = k"
    by (simp add: agg_key_def group_key_def group_columns_def cell_at_def assms(2)
        shipment_index summary_row_def k)
  show "cell_at out ''quantity'' (summary_row M k) =
           IntV (sum_list (map (\<lambda>r. cell_int (cell_at M ''quantity'' r)) [r \<leftarrow> rows M. agg_key M r = k]))"
    by (simp add: cell_at_def assms(2) shipment_index summary_row_def k)
  show "cell_at out ''on_time'' (summary_row M k) =
           agg_first (map (cell_at M ''on_time'') [r \<leftarrow> rows M. agg_key M r = k])"
    by (simp add: cell_at_def assms(2) shipment_index summary_row_def k)
  show "cell_at out ''driver_identifier'' (summary_row M k) = StrV ''unknown''"
    by (simp add: cell_at_def assms(2) shipment_index summary_row_def k)
qed

lemma summary_out_keys:
  assumes "columns out = shipment_columns" "rows out = map (summary_row M) (summary_keys M)"
  shows "map (agg_key out) (rows out) = summary_keys M"
  unfolding assms(2) map_map
  by (rule map_idI) (simp add: summary_row_fields(1) [OF summary_keys_length assms(1)])

lemma filter_eq_single: "distinct xs \<Longrightarrow> x \<in> set xs \<Longrightarrow> [y \<leftarrow> xs. y = x] = [x]"
  by (induction xs) (auto simp: filter_empty_conv)

lemma summary_row_unique:
  assumes "columns out = shipment_columns" "rows out = map (summary_row M) (summary_keys M)"
    and "k \<in> set (summary_keys M)"
  shows "[row \<leftarrow> rows out. agg_key out row = k] = [summary_row M k]"
proof -
  have "[row \<leftarrow> rows out. agg_key out row = k] =
        map (summary_row M) [k' \<leftarrow> summary_keys M. agg_key out (summary_row M k') = k]"
    unfolding assms(2) filter_map by (simp add: comp_def)
  also have "[k' \<leftarrow> summary_keys M. agg_key out (summary_row M k') = k] = [k' \<leftarrow> summary_keys M. k' = k]"
    by (rule filter_cong) (simp_all add: summary_row_fields(1) [OF summary_keys_length assms(1)])
  also have "\<dots> = [k]"
    using summary_keys_strict [of M] assms(3) by (simp add: filter_eq_single strict_sorted_iff)
  finally show ?thesis by simp
qed

lemma index_of_append_notin: "n \<notin> set cols \<Longrightarrow> index_of n (cols @ [n]) = length cols"
  by (induction cols) auto

lemma index_of_append_in: "n \<in> set cols \<Longrightarrow> index_of n (cols @ ys) = index_of n cols"
  by (induction cols) auto

lemma setitem_cell:
  assumes rect: "list_all (\<lambda>r. length r = length (columns df)) (rows df)"
    and r: "r \<in> set (rows (setitem n v df))"
  shows "cell_at (setitem n v df) n r = v"
proof (cases "n \<in> set (columns df)")
  case True
  from r True obtain r0 where r0: "r0 \<in> set (rows df)"
    and req: "r = map (\<lambda>(c, x). if c = n then v else x) (zip (columns df) r0)"
    by (auto simp: setitem_def)
  have len: "length r0 = length (columns df)"
    using rect r0 by (simp add: list_all_iff)
  have i: "index_of n (columns df) < length (columns df)"
    using True by (rule index_of_less)
  show ?thesis
    using True i len by (simp add: cell_at_def setitem_def req index_of_nth)
next
  case False
  from r False obtain r0 where r0: "r0 \<in> set (rows df)" and req: "r = r0 @ [v]"
    by (auto simp: setitem_def)
  have len: "length r0 = length (columns df)"
    using rect r0 by (simp add: list_all_iff)
  have "(r0 @ [v]) ! length (columns df) = v"
    unfolding len [symmetric] by simp
  then show ?thesis
    using False by (simp add: cell_at_def setitem_def req index_of_append_notin)
qed

lemma length_drop_at: "i < length xs \<Longrightarrow> length (drop_at i xs) = length xs - 1"
  by (simp add: drop_at_def)

lemma merge_Inr:
  assumes "merge on B C = Inr J"
  shows "on \<in> set (columns B)" "on \<in> set (columns C)"
    "\<not> keys_clash (map (cell_at B on) (rows B)) (map (cell_at C on) (rows C))"
    "distinct (left_labels on (columns B) (columns C))"
    "distinct (right_labels on (columns B) (columns C))"
    "columns J = left_labels on (columns B) (columns C) @ right_labels on (columns B) (columns C)"
    "rows J = concat (map (\<lambda>l. map (\<lambda>r. l @ drop_at (index_of on (columns C)) r)
                                  [r \<leftarrow> rows C. cell_at C on r = cell_at B on l]) (rows B))"
  using assms unfolding merge_def Let_def cell_at_def [abs_def]
  by (auto split: if_splits)

lemma merge_rect:
  assumes "wf_frame B" "wf_frame C" "merge on B C = Inr J"
  shows "list_all (\<lambda>r. length r = length (columns J)) (rows J)"
proof -
  note m = merge_Inr [OF assms(3)]
  have ri: "index_of on (columns C) < length (columns C)"
    using m(2) by (rule index_of_less)
  have lB: "\<And>l. l \<in> set (rows B) \<Longrightarrow> length l = length (columns B)"
    using assms(1) by (simp add: wf_frame_def list_all_iff)
  have lC: "\<And>r. r \<in> set (rows C) \<Longrightarrow> length r = length (columns C)"
    using assms(2) by (simp add: wf_frame_def list_all_iff)
  show ?thesis
    unfolding list_all_iff m(6) m(7)
    using ri lB lC by (auto simp: left_labels_def right_labels_def length_drop_at)
qed

lemma merged_mapped_unit:
  assumes "wf_frame B" "wf_frame C" "merge on B C = Inr J"
    and "r \<in> set (rows (merged_mapped J))"
  shows "cell_at (merged_mapped J) ''quantity'' r = IntV 1"
proof -
  have "list_all (\<lambda>r. length r = length (columns (rename_columns merge_renames J)))
          (rows (rename_columns merge_renames J))"
    using merge_rect [OF assms(1-3)] by (simp add: rename_columns_def)
  then show ?thesis
    using assms(4) unfolding merged_mapped_def by (rule setitem_cell)
qed

lemma unit_sum:
  assumes "\<And>r. r \<in> set rs \<Longrightarrow> f r = IntV 1"
  shows "sum_list (map (\<lambda>r. cell_int (f r)) rs) = int (length rs)"
  using assms by (induction rs) auto

lemma suffix_x_neq: "c @ ''_x'' \<noteq> ''shipment_identifier''"
proof
  assume "c @ ''_x'' = ''shipment_identifier''"
  then have "last (c @ ''_x'') = last ''shipment_identifier''" by simp
  then show False by simp
qed

lemma index_of_map_same:
  assumes "\<And>c. c \<in> set cols \<Longrightarrow> g c = n \<longleftrightarrow> c = n"
  shows "index_of n (map g cols) = index_of n cols"
  using assms by (induction cols) auto

lemma left_labels_key:
  assumes "''shipment_identifier'' \<in> set lcols"
  shows "index_of ''shipment_identifier'' (left_labels ''shipment_identifier'' lcols rcols @ ys) =
         index_of ''shipment_identifier'' lcols"
proof -
  have "index_of ''shipment_identifier'' (left_labels ''shipment_identifier'' lcols rcols) =
        index_of ''shipment_identifier'' lcols"
    unfolding left_labels_def
    by (rule index_of_map_same) (auto simp: suffix_x_neq)
  moreover have "''shipment_identifier'' \<in> set (left_labels ''shipment_identifier'' lcols rcols)"
    using assms unfolding left_labels_def by (auto simp: image_iff intro!: bexI [of _ "''shipment_identifier''"])
  ultimately show ?thesis by (simp add: index_of_append_in)
qed

lemma count_list_replicate: "count_list (replicate n x) v = (if x = v then n else 0)"
  by (induction n) auto

lemma count_list_append: "count_list (xs @ ys) v = count_list xs v + count_list ys v"
  by (induction xs) auto

lemma length_filter_count: "length [r \<leftarrow> rs. f r = x] = count_list (map f rs) x"
  by (induction rs) auto

lemma join_count:
  assumes "\<And>l r. l \<in> set ls \<Longrightarrow> kj (h l r) = kb l"
  shows "count_list (map kj (concat (map (\<lambda>l. map (h l) [r \<leftarrow> rs. kc r = kb l]) ls))) v =
         count_list (map kb ls) v * count_list (map kc rs) v"
  using assms
proof (induction ls)
  case Nil
  then show ?case by simp
next
  case (Cons l ls)
  have "map kj (map (h l) [r \<leftarrow> rs. kc r = kb l]) = replicate (length [r \<leftarrow> rs. kc r = kb l]) (kb l)"
    using Cons.prems by (simp add: map_replicate_const [symmetric] comp_def)
  then have "count_list (map kj (map (h l) [r \<leftarrow> rs. kc r = kb l])) v =
      (if kb l = v then count_list (map kc rs) v else 0)"
    by (auto simp: count_list_replicate length_filter_count)
  moreover have "count_list (map kj (concat (map (\<lambda>l. map (h l) [r \<leftarrow> rs. kc r = kb l]) ls))) v =
         count_list (map kb ls) v * count_list (map kc rs) v"
    using Cons by simp
  ultimately show ?case
    by (simp add: count_list_append)
qed

lemma merge_key_count:
  assumes "wf_frame B" "wf_frame C" "merge ''shipment_identifier'' B C = Inr J"
  shows "count_list (map (cell_at J ''shipment_identifier'') (rows J)) v =
         count_list (map (cell_at B ''shipment_identifier'') (rows B)) v *
         count_list (map (cell_at C ''shipment_identifier'') (rows C)) v"
proof -
  note m = merge_Inr [OF assms(3)]
  let ?li = "index_of ''shipment_identifier'' (columns B)"
  have idx: "index_of ''shipment_identifier'' (columns J) = ?li"
    unfolding m(6) using m(1) by (rule left_labels_key)
  have li: "?li < length (columns B)"
    using m(1) by (rule index_of_less)
  have lB: "\<And>l. l \<in> set (rows B) \<Longrightarrow> length l = length (columns B)"
    using assms(1) by (simp add: wf_frame_def list_all_iff)
  have key: "cell_at J ''shipment_identifier'' (l @ x) = cell_at B ''shipment_identifier'' l"
    if "l \<in> set (rows B)" for l x
    using lB [OF that] li by (simp add: cell_at_def idx nth_append)
  show ?thesis
    unfolding m(7)
    by (rule join_count) (rule key)
qed

lemma positions_Nil_iff: "positions n cols = [] \<longleftrightarrow> n \<notin> set cols"
  unfolding positions_def filter_empty_conv by (auto simp: in_set_conv_nth)

lemma positions_snoc_other: "n \<noteq> m \<Longrightarrow> positions n (cols @ [m]) = positions n cols"
proof -
  assume nm: "n \<noteq> m"
  have "[i \<leftarrow> [0..<length cols]. (cols @ [m]) ! i = n] = [i \<leftarrow> [0..<length cols]. cols ! i = n]"
    by (rule filter_cong) (auto simp: nth_append)
  then show ?thesis
    using nm by (simp add: positions_def)
qed

lemma merged_mapped_columns:
  "columns (merged_mapped J) =
     (if ''quantity'' \<in> set (map (rename_label merge_renames) (columns J))
      then map (rename_label merge_renames) (columns J)
      else map (rename_label merge_renames) (columns J) @ [''quantity''])"
  by (simp add: merged_mapped_def setitem_def rename_columns_def)

lemma merged_mapped_positions:
  "n \<noteq> ''quantity'' \<Longrightarrow>
     positions n (columns (merged_mapped J)) = positions n (map (rename_label merge_renames) (columns J))"
  unfolding merged_mapped_columns by (simp add: positions_snoc_other)

lemma merged_mapped_quantity_in: "''quantity'' \<in> set (columns (merged_mapped J))"
  unfolding merged_mapped_columns by simp

lemma merged_mapped_rows_Nil: "rows J = [] \<Longrightarrow> rows (merged_mapped J) = []"
  by (simp add: merged_mapped_def setitem_def rename_columns_def)

lemma groupby_agg_ok:
  assumes "\<And>n. n \<in> set by \<Longrightarrow> length (positions n (columns df)) = 1"
    and "s \<in> set (columns df)" "f \<in> set (columns df)"
    and "\<And>r. r \<in> set (rows df) \<Longrightarrow> \<not> is_text (cell_at df s r)"
  shows "\<exists>S. groupby_agg by s f df = Inr S"
proof -
  have 1: "[n \<leftarrow> by. n \<notin> set (columns df)] = []"
    unfolding filter_empty_conv
  proof (intro ballI notI)
    fix n assume "n \<in> set by" "n \<notin> set (columns df)"
    with assms(1) [of n] positions_Nil_iff [of n "columns df"] show False by simp
  qed
  have 2: "\<not> list_ex (\<lambda>n. length (positions n (columns df)) \<noteq> 1) by"
    using assms(1) by (simp add: list_ex_iff)
  have 3: "\<not> list_ex (\<lambda>r. is_text (cell_at df s r)) [r \<leftarrow> rows df. NaN \<notin> set (group_key by df r)]"
    using assms(4) by (simp add: list_ex_iff)
  show ?thesis
    unfolding groupby_agg_def Let_def using 1 2 3 assms(2,3) by simp
qed

lemma groupby_agg_Inr_schema:
  assumes "groupby_agg by s f df = Inr S"
  shows "list_all (\<lambda>n. length (positions n (columns df)) = 1) by" "s \<in> set (columns df)" "f \<in> set (columns df)"
  using assms unfolding groupby_agg_def Let_def
  by (auto simp: list_all_iff list_ex_iff split: list.splits if_splits)

lemma on_time_renamed:
  "''on_time'' \<in> set (columns (merged_mapped J)) \<longleftrightarrow>
   ''on_time'' \<in> set (map (rename_label merge_renames) (columns J))"
  unfolding merged_mapped_columns by simp

lemma reconciler_ok:
  assumes wf: "wf_frame B" "wf_frame C"
    and sid: "''shipment_identifier'' \<in> set (columns B)" "''shipment_identifier'' \<in> set (columns C)"
    and nc: "\<not> keys_clash (map (cell_at B ''shipment_identifier'') (rows B))
                           (map (cell_at C ''shipment_identifier'') (rows C))"
    and sch: "reconciler_schema B C"
  shows "\<exists>out. reconciler B C = Inr out"
proof -
  let ?ll = "left_labels ''shipment_identifier'' (columns B) (columns C)"
  let ?rl = "right_labels ''shipment_identifier'' (columns B) (columns C)"
  from sch have d: "distinct ?ll" "distinct ?rl"
    and u: "list_all (\<lambda>n. length (positions n (map (rename_label merge_renames) (?ll @ ?rl))) = 1) group_columns"
    and ot: "''on_time'' \<in> set (map (rename_label merge_renames) (?ll @ ?rl))"
    unfolding reconciler_schema_def Let_def by simp_all
  obtain J where J: "merge ''shipment_identifier'' B C = Inr J"
    using sid nc d unfolding merge_def Let_def cell_at_def [abs_def] by simp
  note m = merge_Inr [OF J]
  let ?M = "merged_mapped J"
  have g1: "length (positions n (columns ?M)) = 1" if "n \<in> set group_columns" for n
  proof -
    from that have "n \<noteq> ''quantity''" by (auto simp: group_columns_def)
    then have "positions n (columns ?M) =
        positions n (map (rename_label merge_renames) (?ll @ ?rl))"
      using merged_mapped_positions [of n J] by (simp add: m(6))
    moreover have "length (positions n (map (rename_label merge_renames) (?ll @ ?rl))) = 1"
      using u that by (simp add: list_all_iff)
    ultimately show ?thesis by simp
  qed
  have g3: "''on_time'' \<in> set (columns ?M)"
    unfolding on_time_renamed m(6) using ot .
  have g4: "\<not> is_text (cell_at ?M ''quantity'' r)" if "r \<in> set (rows ?M)" for r
    using merged_mapped_unit [OF wf J that] by simp
  from groupby_agg_ok [of group_columns ?M "''quantity''" "''on_time''", OF g1 merged_mapped_quantity_in g3 g4]
  obtain S where S: "groupby_agg group_columns ''quantity'' ''on_time'' ?M = Inr S"
    by blast
  note Seq = groupby_agg_Inr [OF S]
  let ?D = "setitem ''driver_identifier'' (StrV ''unknown'') S"
  have cS: "columns S = group_columns @ [''quantity'', ''on_time'']"
    by (subst Seq) simp
  have cD: "columns ?D = shipment_columns"
    by (simp add: setitem_def cS group_columns_def shipment_columns_def)
  have "[n \<leftarrow> shipment_columns. n \<notin> set (columns ?D)] = []"
    unfolding cD by simp
  then obtain out where "getitem_list shipment_columns ?D = Inr out"
    unfolding getitem_list_def Let_def by simp
  with J S show ?thesis
    unfolding reconciler_def by simp
qed

lemma reconciler_Inr_schema:
  assumes "reconciler B C = Inr out"
  shows "''shipment_identifier'' \<in> set (columns B)" "''shipment_identifier'' \<in> set (columns C)"
    "\<not> keys_clash (map (cell_at B ''shipment_identifier'') (rows B))
                   (map (cell_at C ''shipment_identifier'') (rows C))"
    "reconciler_schema B C"
proof -
  from assms obtain J S where J: "merge ''shipment_identifier'' B C = Inr J"
    and S: "groupby_agg group_columns ''quantity'' ''on_time'' (merged_mapped J) = Inr S"
    unfolding reconciler_def by (auto split: sum.splits)
  note m = merge_Inr [OF J]
  note g = groupby_agg_Inr_schema [OF S]
  show "''shipment_identifier'' \<in> set (columns B)" "''shipment_identifier'' \<in> set (columns C)"
    "\<not> keys_clash (map (cell_at B ''shipment_identifier'') (rows B))
                   (map (cell_at C ''shipment_identifier'') (rows C))"
    using m by simp_all
  have "list_all (\<lambda>n. length (positions n (map (rename_label merge_renames) (columns J))) = 1) group_columns"
    unfolding list_all_iff
  proof
    fix n assume n: "n \<in> set group_columns"
    then have "n \<noteq> ''quantity''" by (auto simp: group_columns_def)
    then have "positions n (map (rename_label merge_renames) (columns J)) =
        positions n (columns (merged_mapped J))"
      using merged_mapped_positions [of n J] by simp
    moreover have "length (positions n (columns (merged_mapped J))) = 1"
      using g(1) n by (simp add: list_all_iff)
    ultimately show "length (positions n (map (rename_label merge_renames) (columns J))) = 1"
      by simp
  qed
  moreover have "''on_time'' \<in> set (map (rename_label merge_renames) (columns J))"
    using g(3) unfolding on_time_renamed .
  ultimately show "reconciler_schema B C"
    unfolding reconciler_schema_def Let_def using m(4,5) by (simp add: m(6))
qed

text \<open>
  When the reconciler raises: for tables as read from files it succeeds exactly when
  both have the key column, the key columns are not one of text and the other of
  numbers, and the labels fit. The number of rows plays no part beyond the check of the
  key columns, which passes whenever one of them has no cell.
\<close>

lemma reconciler_succeeds_iff:
  assumes "wf_frame B" "wf_frame C"
  shows "(\<exists>out. reconciler B C = Inr out) \<longleftrightarrow>
     ''shipment_identifier'' \<in> set (columns B) \<and> ''shipment_identifier'' \<in> set (columns C) \<and>
     \<not> keys_clash (map (cell_at B ''shipment_identifier'') (rows B))
                   (map (cell_at C ''shipment_identifier'') (rows C)) \<and>
     reconciler_schema B C"
  using reconciler_ok [OF assms] reconciler_Inr_schema [of B C] by blast

lemma agg_first_find:
  "agg_first cs = (case List.find (\<lambda>c. c \<noteq> NaN) cs of None \<Rightarrow> NaN | Some c \<Rightarrow> c)"
  unfolding agg_first_def by (induction cs) auto

lemma reconciler_closed:
  assumes "wf_frame B" "wf_frame C"
    and "merge ''shipment_identifier'' B C = Inr J"
    and "reconciler B C = Inr out"
  shows "columns out = shipment_columns"
    and "rows out = map (summary_row (merged_mapped J)) (summary_keys (merged_mapped J))"
proof -
  from reconciler_Inr [OF assms(4)] assms(3)
  have "out = \<lparr>columns = shipment_columns,
               rows = map (summary_row (merged_mapped J)) (summary_keys (merged_mapped J))\<rparr>"
    by auto
  then show "columns out = shipment_columns"
    and "rows out = map (summary_row (merged_mapped J)) (summary_keys (merged_mapped J))"
    by simp_all
qed

lemma mixed_wf: "wf_frame sheet1_mixed" "wf_frame sheet2_mixed"
  by (simp_all add: wf_frame_def sheet1_mixed_def sheet2_mixed_def)

lemma mixed_merge: "merge ''shipment_identifier'' sheet1_mixed sheet2_mixed = Inr merged_mixed"
  by code_simp

lemma mixed_mapped: "merged_mapped merged_mixed =
     \<lparr>columns = [''shipment_identifier'', ''origin'', ''destination'', ''product_name'',
                 ''quantity'', ''on_time''],
      rows = [[IntV 1, StrV ''W2'', StrV ''S1'', StrV ''Widget'', IntV 1, BoolV False],
              [IntV 2, StrV ''W1'', StrV ''S1'', StrV ''Widget'', IntV 1, NaN],
              [IntV 2, StrV ''W1'', StrV ''S1'', StrV ''Widget'', IntV 1, BoolV True],
              [IntV 2, StrV ''W1'', StrV ''S1'', StrV ''Gadget'', IntV 1, NaN],
              [IntV 2, StrV ''W1'', StrV ''S1'', StrV ''Gadget'', IntV 1, BoolV True],
              [IntV 3, StrV ''W1'', StrV ''S1'', NaN, IntV 1, BoolV True],
              [IntV 1, StrV ''W1'', StrV ''S1'', StrV ''Widget'', IntV 1, BoolV False]]\<rparr>"
  by code_simp

lemma mixed_reconciler: "reconciler sheet1_mixed sheet2_mixed = Inr summary_mixed"
  by code_simp

lemma example_wf: "wf_frame sheet1_example" "wf_frame sheet2_example" "wf_frame sheet2_other_ids"
  by (simp_all add: wf_frame_def sheet1_example_def sheet2_example_def sheet2_other_ids_def)

lemma example_reconciler: "reconciler sheet1_example sheet2_example = Inr summary_example"
  by code_simp

lemma conflict_wf: "wf_frame sheet1_conflict" "wf_frame sheet2_conflict"
  by (simp_all add: wf_frame_def sheet1_conflict_def sheet2_conflict_def)

lemma conflict_merge: "merge ''shipment_identifier'' sheet1_conflict sheet2_conflict = Inr merged_conflict"
  by code_simp

lemma conflict_mapped: "merged_mapped merged_conflict =
     \<lparr>columns = [''shipment_identifier'', ''origin'', ''destination'', ''product_name'',
                 ''on_time'', ''quantity''],
      rows = [[IntV 1, StrV ''W1'', StrV ''S1'', StrV ''Widget'', BoolV True, IntV 1],
              [IntV 2, StrV ''W2'', StrV ''S1'', StrV ''Widget'', BoolV False, IntV 1],
              [IntV 3, StrV ''W1'', StrV ''S1'', StrV ''Widget'', BoolV False, IntV 1],
              [IntV 4, StrV ''W1'', StrV ''S1'', StrV ''Widget'', BoolV False, IntV 1]]\<rparr>"
  by code_simp

lemma conflict_reconciler: "reconciler sheet1_conflict sheet2_conflict = Inr summary_conflict"
  by code_simp

section \<open>The reconciler: results\<close>

text \<open>
  \<^bold>\<open>Claim C1\<close>, as stated, fails for a key with a missing part: \<^verbatim>\<open>groupby\<close> drops the
  rows whose origin, destination or product is missing (\<^verbatim>\<open>dropna=True\<close>). The single
  joined row of \<open>sheet1_no_product\<close> has the key (W1, S1, missing), and the reconciler's
  output has no row at all.
\<close>

theorem reconciler_drops_missing_key:
  "merge ''shipment_identifier'' sheet1_no_product sheet2_example = Inr merged_no_product \<and>
   map (agg_key (merged_mapped merged_no_product)) (rows (merged_mapped merged_no_product)) =
     [[StrV ''W1'', StrV ''S1'', NaN]] \<and>
   reconciler sheet1_no_product sheet2_example = Inr \<lparr>columns = shipment_columns, rows = []\<rparr>"
  by code_simp

text \<open>
  \<^bold>\<open>Claim C1\<close>, amended: for tables \<open>B\<close> and \<open>C\<close> as read from files, joined to \<open>J\<close>, and
  every joined row \<open>r\<close> (renamed, with its unit quantity) whose origin, destination and
  product are all present, the reconciler's output has exactly one row with the key of
  \<open>r\<close>, and the quantity of that row is the number of joined rows with that key, whatever
  quantity column the inputs had. No output row has a key with a missing part.
\<close>

theorem reconciler_quantity_is_count:
  assumes "wf_frame B" "wf_frame C"
    and "merge ''shipment_identifier'' B C = Inr J"
    and "reconciler B C = Inr out"
    and "r \<in> set (rows (merged_mapped J))"
    and "NaN \<notin> set (agg_key (merged_mapped J) r)"
  shows "(\<exists>row. [row' \<leftarrow> rows out. agg_key out row' = agg_key (merged_mapped J) r] = [row] \<and>
               cell_at out ''quantity'' row =
                 IntV (int (length [r' \<leftarrow> rows (merged_mapped J).
                                      agg_key (merged_mapped J) r' = agg_key (merged_mapped J) r]))) \<and>
         (\<forall>row \<in> set (rows out). NaN \<notin> set (agg_key out row))"
proof -
  let ?M = "merged_mapped J"
  let ?k = "agg_key ?M r"
  note c = reconciler_closed [OF assms(1-4)]
  have k: "?k \<in> set (summary_keys ?M)"
    unfolding summary_keys_set using assms(5,6) by blast
  have one: "[row' \<leftarrow> rows out. agg_key out row' = ?k] = [summary_row ?M ?k]"
    using c k by (rule summary_row_unique)
  have "cell_at out ''quantity'' (summary_row ?M ?k) =
      IntV (int (length [r' \<leftarrow> rows ?M. agg_key ?M r' = ?k]))"
    unfolding summary_row_fields(2) [OF summary_keys_length [OF k] c(1)]
    using unit_sum [of "[r' \<leftarrow> rows ?M. agg_key ?M r' = ?k]" "cell_at ?M ''quantity''"]
      merged_mapped_unit [OF assms(1-3)]
    by simp
  with one have 1: "\<exists>row. [row' \<leftarrow> rows out. agg_key out row' = ?k] = [row] \<and>
               cell_at out ''quantity'' row = IntV (int (length [r' \<leftarrow> rows ?M. agg_key ?M r' = ?k]))"
    by blast
  have 2: "\<forall>row \<in> set (rows out). NaN \<notin> set (agg_key out row)"
  proof
    fix row assume "row \<in> set (rows out)"
    then obtain k' where k': "k' \<in> set (summary_keys ?M)" "row = summary_row ?M k'"
      unfolding c(2) by auto
    have "agg_key out row = k'"
      unfolding k'(2) by (rule summary_row_fields(1) [OF summary_keys_length [OF k'(1)] c(1)])
    moreover have "NaN \<notin> set k'"
      using k'(1) unfolding summary_keys_set by auto
    ultimately show "NaN \<notin> set (agg_key out row)" by simp
  qed
  from 1 2 show ?thesis by blast
qed

theorem reconciler_quantity_is_count_witness:
  "wf_frame sheet1_mixed \<and> wf_frame sheet2_mixed \<and>
   merge ''shipment_identifier'' sheet1_mixed sheet2_mixed = Inr merged_mixed \<and>
   reconciler sheet1_mixed sheet2_mixed = Inr summary_mixed \<and>
   [IntV 2, StrV ''W1'', StrV ''S1'', StrV ''Widget'', IntV 1, NaN] \<in> set (rows (merged_mapped merged_mixed)) \<and>
   agg_key (merged_mapped merged_mixed) [IntV 2, StrV ''W1'', StrV ''S1'', StrV ''Widget'', IntV 1, NaN] =
     [StrV ''W1'', StrV ''S1'', StrV ''Widget''] \<and>
   [row' \<leftarrow> rows summary_mixed. agg_key summary_mixed row' = [StrV ''W1'', StrV ''S1'', StrV ''Widget'']] =
     [[StrV ''W1'', StrV ''S1'', StrV ''Widget'', IntV 3, BoolV True, StrV ''unknown'']] \<and>
   cell_at summary_mixed ''quantity''
     [StrV ''W1'', StrV ''S1'', StrV ''Widget'', IntV 3, BoolV True, StrV ''unknown''] = IntV 3"
proof -
  let ?r = "[IntV 2, StrV ''W1'', StrV ''S1'', StrV ''Widget'', IntV 1, NaN]"
  let ?k = "[StrV ''W1'', StrV ''S1'', StrV ''Widget'']"
  let ?row = "[StrV ''W1'', StrV ''S1'', StrV ''Widget'', IntV 3, BoolV True, StrV ''unknown'']"
  have r: "?r \<in> set (rows (merged_mapped merged_mixed))"
    unfolding mixed_mapped by simp
  have k: "agg_key (merged_mapped merged_mixed) ?r = ?k"
    unfolding mixed_mapped by code_simp
  have nn: "NaN \<notin> set (agg_key (merged_mapped merged_mixed) ?r)"
    unfolding k by simp
  have f: "[row' \<leftarrow> rows summary_mixed. agg_key summary_mixed row' = ?k] = [?row]"
    by code_simp
  have n: "length [r' \<leftarrow> rows (merged_mapped merged_mixed). agg_key (merged_mapped merged_mixed) r' = ?k] = 3"
    unfolding mixed_mapped by code_simp
  from reconciler_quantity_is_count [OF mixed_wf mixed_merge mixed_reconciler r nn]
  obtain row where "[row' \<leftarrow> rows summary_mixed. agg_key summary_mixed row' = ?k] = [row]"
    and "cell_at summary_mixed ''quantity'' row = IntV 3"
    unfolding k n by auto
  with f have "cell_at summary_mixed ''quantity'' ?row = IntV 3" by simp
  with mixed_wf mixed_merge mixed_reconciler r k f show ?thesis by simp
qed

text \<open>
  \<^bold>\<open>Claim C3\<close>, as stated, fails for the direct mapper: it copies \<^verbatim>\<open>product_quantity\<close>
  without looking at it. The table \<open>sheet0_zero_quantity\<close> records the quantity 0, and so
  does the mapper's output.
\<close>

theorem direct_mapper_keeps_zero_quantity:
  "direct_mapper sheet0_zero_quantity =
     Inr \<lparr>columns = shipment_columns,
          rows = [[StrV ''W2'', StrV ''S2'', StrV ''Gadget'', IntV 0, BoolV False, StrV ''D9'']]\<rparr> \<and>
   cell_at \<lparr>columns = shipment_columns,
            rows = [[StrV ''W2'', StrV ''S2'', StrV ''Gadget'', IntV 0, BoolV False, StrV ''D9'']]\<rparr>
     ''quantity'' [StrV ''W2'', StrV ''S2'', StrV ''Gadget'', IntV 0, BoolV False, StrV ''D9''] = IntV 0 \<and>
   \<not> positive_quantity (IntV 0)"
  by code_simp

text \<open>
  \<^bold>\<open>Claim C3\<close>, amended: every row the reconciler produces (from tables as read from
  files) has a positive integer quantity; every row the direct mapper produces has the
  \<^verbatim>\<open>product_quantity\<close> of its input row as its quantity, unchanged, so it is positive
  exactly when the input's is. (The mapper part is stated for the inputs of claim C2.)
\<close>

theorem quantity_positive_or_passed_through:
  "(wf_frame B \<and> wf_frame C \<and> reconciler B C = Inr out \<longrightarrow>
      (\<forall>row \<in> set (rows out). positive_quantity (cell_at out ''quantity'' row))) \<and>
   (wf_frame A \<and> set source_columns \<subseteq> set (columns A) \<and>
    set [''origin'', ''destination'', ''product_name'', ''quantity''] \<inter> set (columns A) = {} \<longrightarrow>
      (\<exists>out'. direct_mapper A = Inr out' \<and> length (rows out') = length (rows A) \<and>
         (\<forall>i < length (rows A).
            cell_at out' ''quantity'' (rows out' ! i) = cell_at A ''product_quantity'' (rows A ! i))))"
proof (intro conjI impI)
  assume a: "wf_frame B \<and> wf_frame C \<and> reconciler B C = Inr out"
  then obtain J where J: "merge ''shipment_identifier'' B C = Inr J"
    using reconciler_Inr by blast
  let ?M = "merged_mapped J"
  from a J have c: "columns out = shipment_columns"
    "rows out = map (summary_row ?M) (summary_keys ?M)"
    using reconciler_closed by blast+
  show "\<forall>row \<in> set (rows out). positive_quantity (cell_at out ''quantity'' row)"
  proof
    fix row assume "row \<in> set (rows out)"
    then obtain k where k: "k \<in> set (summary_keys ?M)" "row = summary_row ?M k"
      unfolding c(2) by auto
    from k(1) obtain r where r: "r \<in> set (rows ?M)" "agg_key ?M r = k"
      unfolding summary_keys_set by auto
    then have "[r' \<leftarrow> rows ?M. agg_key ?M r' = k] \<noteq> []"
      by (auto simp: filter_empty_conv)
    then have pos: "0 < length [r' \<leftarrow> rows ?M. agg_key ?M r' = k]" by simp
    have "cell_at out ''quantity'' row = IntV (int (length [r' \<leftarrow> rows ?M. agg_key ?M r' = k]))"
      unfolding k(2) summary_row_fields(2) [OF summary_keys_length [OF k(1)] c(1)]
      using unit_sum [of "[r' \<leftarrow> rows ?M. agg_key ?M r' = k]" "cell_at ?M ''quantity''"]
        merged_mapped_unit [of B C "''shipment_identifier''" J] a J
      by simp
    with pos show "positive_quantity (cell_at out ''quantity'' row)"
      by (simp add: positive_quantity_def)
  qed
next
  assume a: "wf_frame A \<and> set source_columns \<subseteq> set (columns A) \<and>
    set [''origin'', ''destination'', ''product_name'', ''quantity''] \<inter> set (columns A) = {}"
  then have m: "direct_mapper A =
     Inr \<lparr>columns = shipment_columns,
          rows = map (\<lambda>r. map (\<lambda>n. cell_at A n r) source_columns) (rows A)\<rparr>"
    using direct_mapper_rows by blast
  show "\<exists>out'. direct_mapper A = Inr out' \<and> length (rows out') = length (rows A) \<and>
         (\<forall>i < length (rows A).
            cell_at out' ''quantity'' (rows out' ! i) = cell_at A ''product_quantity'' (rows A ! i))"
    unfolding m
    by (simp add: cell_at_def [of "\<lparr>columns = shipment_columns, rows = _\<rparr>"] shipment_index
        source_columns_def)
qed

theorem quantity_positive_or_passed_through_witness:
  "wf_frame sheet1_mixed \<and> wf_frame sheet2_mixed \<and>
   reconciler sheet1_mixed sheet2_mixed = Inr summary_mixed \<and>
   list_all (\<lambda>row. positive_quantity (cell_at summary_mixed ''quantity'' row)) (rows summary_mixed) \<and>
   wf_frame sheet0_example \<and> set source_columns \<subseteq> set (columns sheet0_example) \<and>
   set [''origin'', ''destination'', ''product_name'', ''quantity''] \<inter> set (columns sheet0_example) = {} \<and>
   direct_mapper sheet0_example =
     Inr \<lparr>columns = shipment_columns,
          rows = [[StrV ''W2'', StrV ''S2'', StrV ''Gadget'', IntV 5, BoolV False, StrV ''D9'']]\<rparr> \<and>
   cell_at sheet0_example ''product_quantity'' (rows sheet0_example ! 0) = IntV 5"
proof -
  have h: "wf_frame sheet0_example" "set source_columns \<subseteq> set (columns sheet0_example)"
    "set [''origin'', ''destination'', ''product_name'', ''quantity''] \<inter> set (columns sheet0_example) = {}"
    by (simp_all add: wf_frame_def sheet0_example_def source_columns_def)
  have m: "direct_mapper sheet0_example =
     Inr \<lparr>columns = shipment_columns,
          rows = [[StrV ''W2'', StrV ''S2'', StrV ''Gadget'', IntV 5, BoolV False, StrV ''D9'']]\<rparr>"
    by code_simp
  have q: "cell_at sheet0_example ''product_quantity'' (rows sheet0_example ! 0) = IntV 5"
    by code_simp
  have "list_all (\<lambda>row. positive_quantity (cell_at summary_mixed ''quantity'' row)) (rows summary_mixed)"
    using quantity_positive_or_passed_through [of sheet1_mixed sheet2_mixed summary_mixed sheet0_example]
      mixed_wf mixed_reconciler
    by (simp add: list_all_iff)
  with mixed_wf mixed_reconciler h m q show ?thesis by simp
qed

text \<open>
  \<^bold>\<open>Claim C4\<close>, as stated, fails when the first row of a group has no \<^verbatim>\<open>on_time\<close>:
  the aggregation \<^verbatim>\<open>'first'\<close> skips missing values. Joined with \<open>sheet2_first_missing\<close>,
  the two shipments of the example form one group whose first row has a missing flag and
  whose second row says \<^verbatim>\<open>True\<close>; the output row says \<^verbatim>\<open>True\<close>.
\<close>

theorem reconciler_on_time_skips_missing:
  "merge ''shipment_identifier'' sheet1_example sheet2_first_missing = Inr merged_first_missing \<and>
   map (agg_key (merged_mapped merged_first_missing)) (rows (merged_mapped merged_first_missing)) =
     [[StrV ''W1'', StrV ''S1'', StrV ''Widget''], [StrV ''W1'', StrV ''S1'', StrV ''Widget'']] \<and>
   map (cell_at (merged_mapped merged_first_missing) ''on_time'') (rows (merged_mapped merged_first_missing)) =
     [NaN, BoolV True] \<and>
   reconciler sheet1_example sheet2_first_missing =
     Inr \<lparr>columns = shipment_columns,
          rows = [[StrV ''W1'', StrV ''S1'', StrV ''Widget'', IntV 2, BoolV True, StrV ''unknown'']]\<rparr>"
  by code_simp

text \<open>
  \<^bold>\<open>Claim C4\<close>, amended: for every group \<open>g\<close> of joined rows sharing a key whose parts are
  all present, the \<^verbatim>\<open>on_time\<close> of the output row for that key is the \<^verbatim>\<open>on_time\<close> of the
  first row of the group, in input order, that has one (and missing if no row of the group
  has one). In particular it is the \<^verbatim>\<open>on_time\<close> of the first row of the group whenever
  that row has one; it is never chosen by majority or recency. The input order of the
  grouping is the order of the rows of \<open>merged_mapped J\<close>, which \<open>g\<close> keeps.
\<close>

theorem reconciler_on_time_first_present:
  assumes "wf_frame B" "wf_frame C"
    and "merge ''shipment_identifier'' B C = Inr J"
    and "reconciler B C = Inr out"
    and "r \<in> set (rows (merged_mapped J))"
    and "NaN \<notin> set (agg_key (merged_mapped J) r)"
    and "g = [r' \<leftarrow> rows (merged_mapped J). agg_key (merged_mapped J) r' = agg_key (merged_mapped J) r]"
  shows "\<exists>row. [row' \<leftarrow> rows out. agg_key out row' = agg_key (merged_mapped J) r] = [row] \<and>
               cell_at out ''on_time'' row =
                 (case List.find (\<lambda>c. c \<noteq> NaN) (map (cell_at (merged_mapped J) ''on_time'') g) of
                    None \<Rightarrow> NaN | Some c \<Rightarrow> c) \<and>
               (cell_at (merged_mapped J) ''on_time'' (hd g) \<noteq> NaN \<longrightarrow>
                  cell_at out ''on_time'' row = cell_at (merged_mapped J) ''on_time'' (hd g))"
proof -
  let ?M = "merged_mapped J"
  let ?k = "agg_key ?M r"
  note c = reconciler_closed [OF assms(1-4)]
  have k: "?k \<in> set (summary_keys ?M)"
    unfolding summary_keys_set using assms(5,6) by blast
  have one: "[row' \<leftarrow> rows out. agg_key out row' = ?k] = [summary_row ?M ?k]"
    using c k by (rule summary_row_unique)
  have ot: "cell_at out ''on_time'' (summary_row ?M ?k) =
      (case List.find (\<lambda>c. c \<noteq> NaN) (map (cell_at ?M ''on_time'') g) of None \<Rightarrow> NaN | Some c \<Rightarrow> c)"
    unfolding summary_row_fields(3) [OF summary_keys_length [OF k] c(1)] assms(7)
    by (rule agg_first_find)
  have "g \<noteq> []"
    unfolding assms(7) using assms(5) by (auto simp: filter_empty_conv)
  then obtain x xs where g: "g = x # xs" by (cases g) auto
  have hd: "cell_at ?M ''on_time'' (hd g) \<noteq> NaN \<longrightarrow>
      cell_at out ''on_time'' (summary_row ?M ?k) = cell_at ?M ''on_time'' (hd g)"
    unfolding ot by (simp add: g)
  from one ot hd show ?thesis by blast
qed

theorem reconciler_on_time_first_present_witness:
  "wf_frame sheet1_conflict \<and> wf_frame sheet2_conflict \<and>
   merge ''shipment_identifier'' sheet1_conflict sheet2_conflict = Inr merged_conflict \<and>
   reconciler sheet1_conflict sheet2_conflict = Inr summary_conflict \<and>
   [IntV 4, StrV ''W1'', StrV ''S1'', StrV ''Widget'', BoolV False, IntV 1]
     \<in> set (rows (merged_mapped merged_conflict)) \<and>
   [r' \<leftarrow> rows (merged_mapped merged_conflict).
      agg_key (merged_mapped merged_conflict) r' = [StrV ''W1'', StrV ''S1'', StrV ''Widget'']] =
     [[IntV 1, StrV ''W1'', StrV ''S1'', StrV ''Widget'', BoolV True, IntV 1],
      [IntV 3, StrV ''W1'', StrV ''S1'', StrV ''Widget'', BoolV False, IntV 1],
      [IntV 4, StrV ''W1'', StrV ''S1'', StrV ''Widget'', BoolV False, IntV 1]] \<and>
   map (cell_at (merged_mapped merged_conflict) ''on_time'')
     [[IntV 1, StrV ''W1'', StrV ''S1'', StrV ''Widget'', BoolV True, IntV 1],
      [IntV 3, StrV ''W1'', StrV ''S1'', StrV ''Widget'', BoolV False, IntV 1],
      [IntV 4, StrV ''W1'', StrV ''S1'', StrV ''Widget'', BoolV False, IntV 1]] =
     [BoolV True, BoolV False, BoolV False] \<and>
   [row' \<leftarrow> rows summary_conflict. agg_key summary_conflict row' = [StrV ''W1'', StrV ''S1'', StrV ''Widget'']] =
     [[StrV ''W1'', StrV ''S1'', StrV ''Widget'', IntV 3, BoolV True, StrV ''unknown'']] \<and>
   cell_at summary_conflict ''on_time''
     [StrV ''W1'', StrV ''S1'', StrV ''Widget'', IntV 3, BoolV True, StrV ''unknown''] = BoolV True"
proof -
  let ?M = "merged_mapped merged_conflict"
  let ?r1 = "[IntV 1, StrV ''W1'', StrV ''S1'', StrV ''Widget'', BoolV True, IntV 1]"
  let ?r3 = "[IntV 3, StrV ''W1'', StrV ''S1'', StrV ''Widget'', BoolV False, IntV 1]"
  let ?r = "[IntV 4, StrV ''W1'', StrV ''S1'', StrV ''Widget'', BoolV False, IntV 1]"
  let ?k = "[StrV ''W1'', StrV ''S1'', StrV ''Widget'']"
  let ?row = "[StrV ''W1'', StrV ''S1'', StrV ''Widget'', IntV 3, BoolV True, StrV ''unknown'']"
  have r: "?r \<in> set (rows ?M)"
    unfolding conflict_mapped by simp
  have k: "agg_key ?M ?r = ?k"
    unfolding conflict_mapped by code_simp
  have nn: "NaN \<notin> set (agg_key ?M ?r)"
    unfolding k by simp
  have g: "[r' \<leftarrow> rows ?M. agg_key ?M r' = ?k] = [?r1, ?r3, ?r]"
    unfolding conflict_mapped by code_simp
  have ots: "map (cell_at ?M ''on_time'') [?r1, ?r3, ?r] = [BoolV True, BoolV False, BoolV False]"
    unfolding conflict_mapped by code_simp
  have f: "[row' \<leftarrow> rows summary_conflict. agg_key summary_conflict row' = ?k] = [?row]"
    by code_simp
  from reconciler_on_time_first_present [OF conflict_wf conflict_merge conflict_reconciler r nn refl]
  obtain row where "[row' \<leftarrow> rows summary_conflict. agg_key summary_conflict row' = ?k] = [row]"
    and "cell_at summary_conflict ''on_time'' row =
           (case List.find (\<lambda>c. c \<noteq> NaN) (map (cell_at ?M ''on_time'') [?r1, ?r3, ?r]) of
              None \<Rightarrow> NaN | Some c \<Rightarrow> c)"
    unfolding k g by auto
  with f have "cell_at summary_conflict ''on_time'' ?row = BoolV True"
    unfolding ots by simp
  with conflict_wf conflict_merge conflict_reconciler r g ots f show ?thesis by simp
qed

text \<open>
  \<^bold>\<open>Claim C5\<close>, as stated, fails when the two key columns are of different kinds:
  \<^verbatim>\<open>merge\<close> refuses to join a numeric key column with a text one, although no value of one
  can equal a value of the other. The shipments of \<open>sheet1_example\<close> are numbered,
  \<open>sheet2_text_ids\<close> identifies its shipment by a text: the key sets are disjoint and the
  reconciler raises \<^verbatim>\<open>ValueError\<close>.
\<close>

theorem reconciler_rejects_mixed_keys:
  "set (map (cell_at sheet1_example ''shipment_identifier'') (rows sheet1_example)) \<inter>
   set (map (cell_at sheet2_text_ids ''shipment_identifier'') (rows sheet2_text_ids)) = {} \<and>
   reconciler sheet1_example sheet2_text_ids =
     Inl (ValueError ''You are trying to merge on columns of different types'')"
  by code_simp

text \<open>
  \<^bold>\<open>Claim C5\<close>, amended: for tables \<open>B\<close> and \<open>C\<close> as read from files, both with the key
  column, whose labels fit the reconciler and whose key columns are not one of text and
  the other of numbers, if no key of \<open>B\<close> is a key of \<open>C\<close> then the reconciler succeeds
  and its output has the six shipment columns and no row.
\<close>

theorem reconciler_disjoint_empty:
  assumes "wf_frame B" "wf_frame C"
    and "''shipment_identifier'' \<in> set (columns B)" "''shipment_identifier'' \<in> set (columns C)"
    and "reconciler_schema B C"
    and "\<not> keys_clash (map (cell_at B ''shipment_identifier'') (rows B))
                       (map (cell_at C ''shipment_identifier'') (rows C))"
    and "set (map (cell_at B ''shipment_identifier'') (rows B)) \<inter>
         set (map (cell_at C ''shipment_identifier'') (rows C)) = {}"
  shows "reconciler B C = Inr \<lparr>columns = shipment_columns, rows = []\<rparr>"
proof -
  from reconciler_ok [OF assms(1-4) assms(6) assms(5)]
  obtain out where out: "reconciler B C = Inr out" by blast
  from reconciler_Inr [OF out] obtain J where J: "merge ''shipment_identifier'' B C = Inr J"
    and o: "out = \<lparr>columns = shipment_columns,
                   rows = map (summary_row (merged_mapped J)) (summary_keys (merged_mapped J))\<rparr>"
    by blast
  have "[r \<leftarrow> rows C. cell_at C ''shipment_identifier'' r = cell_at B ''shipment_identifier'' l] = []"
    if "l \<in> set (rows B)" for l
    unfolding filter_empty_conv using assms(7) that by auto
  then have "rows J = []"
    unfolding merge_Inr(7) [OF J] by simp
  then have "summary_keys (merged_mapped J) = []"
    by (simp add: summary_keys_def merged_mapped_rows_Nil)
  with o out show ?thesis by simp
qed

theorem reconciler_disjoint_empty_witness:
  "wf_frame sheet1_example \<and> wf_frame sheet2_other_ids \<and>
   ''shipment_identifier'' \<in> set (columns sheet1_example) \<and>
   ''shipment_identifier'' \<in> set (columns sheet2_other_ids) \<and>
   reconciler_schema sheet1_example sheet2_other_ids \<and>
   \<not> keys_clash (map (cell_at sheet1_example ''shipment_identifier'') (rows sheet1_example))
                 (map (cell_at sheet2_other_ids ''shipment_identifier'') (rows sheet2_other_ids)) \<and>
   set (map (cell_at sheet1_example ''shipment_identifier'') (rows sheet1_example)) \<inter>
     set (map (cell_at sheet2_other_ids ''shipment_identifier'') (rows sheet2_other_ids)) = {} \<and>
   reconciler sheet1_example sheet2_other_ids = Inr \<lparr>columns = shipment_columns, rows = []\<rparr>"
proof -
  have s: "''shipment_identifier'' \<in> set (columns sheet1_example)"
    "''shipment_identifier'' \<in> set (columns sheet2_other_ids)"
    by (simp_all add: sheet1_example_def sheet2_other_ids_def)
  have sch: "reconciler_schema sheet1_example sheet2_other_ids"
    by code_simp
  have nc: "\<not> keys_clash (map (cell_at sheet1_example ''shipment_identifier'') (rows sheet1_example))
                 (map (cell_at sheet2_other_ids ''shipment_identifier'') (rows sheet2_other_ids))"
    by code_simp
  have d: "set (map (cell_at sheet1_example ''shipment_identifier'') (rows sheet1_example)) \<inter>
     set (map (cell_at sheet2_other_ids ''shipment_identifier'') (rows sheet2_other_ids)) = {}"
    by code_simp
  from reconciler_disjoint_empty [OF example_wf(1) example_wf(3) s sch nc d]
  show ?thesis using example_wf s sch nc d by simp
qed

text \<open>
  \<^bold>\<open>Claim C7\<close>: every row of the reconciler's output, for every pair of input tables, has
  the text \<^verbatim>\<open>unknown\<close> as its \<^verbatim>\<open>driver_identifier\<close>.
\<close>

theorem reconciler_driver_unknown:
  assumes "reconciler B C = Inr out"
  shows "\<forall>row \<in> set (rows out). cell_at out ''driver_identifier'' row = StrV ''unknown''"
proof -
  from reconciler_Inr [OF assms] obtain J where
    out: "out = \<lparr>columns = shipment_columns,
                 rows = map (summary_row (merged_mapped J)) (summary_keys (merged_mapped J))\<rparr>"
    by blast
  have c: "columns out = shipment_columns" by (simp add: out)
  have r: "rows out = map (summary_row (merged_mapped J)) (summary_keys (merged_mapped J))"
    by (simp add: out)
  show ?thesis
    unfolding r using summary_row_fields(4) [OF summary_keys_length c] by auto
qed

theorem reconciler_driver_unknown_witness:
  "reconciler sheet1_example sheet2_example = Inr summary_example \<and>
   rows summary_example \<noteq> [] \<and>
   list_all (\<lambda>row. cell_at summary_example ''driver_identifier'' row = StrV ''unknown'')
     (rows summary_example)"
proof -
  have "list_all (\<lambda>row. cell_at summary_example ''driver_identifier'' row = StrV ''unknown'')
     (rows summary_example)"
    using reconciler_driver_unknown [OF example_reconciler] by (simp add: list_all_iff)
  moreover have "rows summary_example \<noteq> []"
    by (simp add: summary_example_def)
  ultimately show ?thesis using example_reconciler by simp
qed

text \<open>
  \<^bold>\<open>Claim C9\<close>: the rows of the reconciler's output come in strictly ascending
  lexicographic order of their keys (origin, then destination, then product name),
  whatever the order of the input rows. In the example the first joined row has the
  greatest key and comes out last.
\<close>

theorem reconciler_sorted:
  assumes "reconciler B C = Inr out"
  shows "sorted_wrt (<) (map (agg_key out) (rows out))"
proof -
  from reconciler_Inr [OF assms] obtain J where
    out: "out = \<lparr>columns = shipment_columns,
                 rows = map (summary_row (merged_mapped J)) (summary_keys (merged_mapped J))\<rparr>"
    by blast
  have "map (agg_key out) (rows out) = summary_keys (merged_mapped J)"
    by (rule summary_out_keys) (simp_all add: out)
  then show ?thesis by (simp add: summary_keys_strict)
qed

theorem reconciler_sorted_witness:
  "reconciler sheet1_mixed sheet2_mixed = Inr summary_mixed \<and>
   map (agg_key (merged_mapped merged_mixed)) (rows (merged_mapped merged_mixed)) ! 0 =
     [StrV ''W2'', StrV ''S1'', StrV ''Widget''] \<and>
   map (agg_key summary_mixed) (rows summary_mixed) =
     [[StrV ''W1'', StrV ''S1'', StrV ''Gadget''],
      [StrV ''W1'', StrV ''S1'', StrV ''Widget''],
      [StrV ''W2'', StrV ''S1'', StrV ''Widget'']] \<and>
   sorted_wrt (<) (map (agg_key summary_mixed) (rows summary_mixed))"
proof -
  have a: "map (agg_key (merged_mapped merged_mixed)) (rows (merged_mapped merged_mixed)) ! 0 =
     [StrV ''W2'', StrV ''S1'', StrV ''Widget'']"
    unfolding mixed_mapped by code_simp
  have b: "map (agg_key summary_mixed) (rows summary_mixed) =
     [[StrV ''W1'', StrV ''S1'', StrV ''Gadget''],
      [StrV ''W1'', StrV ''S1'', StrV ''Widget''],
      [StrV ''W2'', StrV ''S1'', StrV ''Widget'']]"
    by code_simp
  from reconciler_sorted [OF mixed_reconciler] a b mixed_reconciler
  show ?thesis by simp
qed

text \<open>
  \<^bold>\<open>Claim C10\<close>: the join is many-to-many. For tables as read from files, a key value
  that occurs \<open>m\<close> times in \<open>B\<close> and \<open>n\<close> times in \<open>C\<close> occurs \<open>m * n\<close> times in the joined
  table, and each joined row gets the quantity 1 before the grouping.
\<close>

theorem merge_many_to_many:
  assumes "wf_frame B" "wf_frame C"
    and "merge ''shipment_identifier'' B C = Inr J"
  shows "count_list (map (cell_at J ''shipment_identifier'') (rows J)) v =
           count_list (map (cell_at B ''shipment_identifier'') (rows B)) v *
           count_list (map (cell_at C ''shipment_identifier'') (rows C)) v \<and>
         length (rows (merged_mapped J)) = length (rows J) \<and>
         (\<forall>r \<in> set (rows (merged_mapped J)). cell_at (merged_mapped J) ''quantity'' r = IntV 1)"
  using merge_key_count [OF assms] merged_mapped_unit [OF assms]
  by (simp add: merged_mapped_def setitem_def rename_columns_def)

theorem merge_many_to_many_witness:
  "wf_frame sheet1_mixed \<and> wf_frame sheet2_mixed \<and>
   merge ''shipment_identifier'' sheet1_mixed sheet2_mixed = Inr merged_mixed \<and>
   count_list (map (cell_at sheet1_mixed ''shipment_identifier'') (rows sheet1_mixed)) (IntV 2) = 2 \<and>
   count_list (map (cell_at sheet2_mixed ''shipment_identifier'') (rows sheet2_mixed)) (IntV 2) = 2 \<and>
   count_list (map (cell_at merged_mixed ''shipment_identifier'') (rows merged_mixed)) (IntV 2) = 4 \<and>
   list_all (\<lambda>r. cell_at (merged_mapped merged_mixed) ''quantity'' r = IntV 1)
     (rows (merged_mapped merged_mixed))"
proof -
  have b: "count_list (map (cell_at sheet1_mixed ''shipment_identifier'') (rows sheet1_mixed)) (IntV 2) = 2"
    by code_simp
  have c: "count_list (map (cell_at sheet2_mixed ''shipment_identifier'') (rows sheet2_mixed)) (IntV 2) = 2"
    by code_simp
  from merge_many_to_many [OF mixed_wf mixed_merge, of "IntV 2"]
  have "count_list (map (cell_at merged_mixed ''shipment_identifier'') (rows merged_mixed)) (IntV 2) = 4"
    and "list_all (\<lambda>r. cell_at (merged_mapped merged_mixed) ''quantity'' r = IntV 1)
     (rows (merged_mapped merged_mixed))"
    unfolding b c by (simp_all add: list_all_iff)
  with mixed_wf mixed_merge b c show ?thesis by simp
qed

section \<open>The run: results\<close>

text \<open>
  \<^bold>\<open>Claim C8\<close>, as stated, fails for a table that already holds rows: both writes are
  appends (\<^verbatim>\<open>if_exists='append'\<close>), so what the table held stays in front. Run on
  \<open>table_before\<close>, the script succeeds and leaves three rows, the stored one first; the
  mapper's rows followed by the reconciler's are two.
\<close>

theorem main_keeps_prior_rows:
  "direct_mapper sheet0_example =
     Inr \<lparr>columns = shipment_columns,
          rows = [[StrV ''W2'', StrV ''S2'', StrV ''Gadget'', IntV 5, BoolV False, StrV ''D9'']]\<rparr> \<and>
   reconciler sheet1_example sheet2_example =
     Inr \<lparr>columns = shipment_columns,
          rows = [[StrV ''W1'', StrV ''S1'', StrV ''Widget'', IntV 2, BoolV True, StrV ''unknown'']]\<rparr> \<and>
   main (\<lambda>df t. True) sheet0_example sheet1_example sheet2_example table_before =
     (None, [[StrV ''W9'', StrV ''S9'', StrV ''Bolt'', IntV 1, BoolV True, StrV ''D1''],
             [StrV ''W2'', StrV ''S2'', StrV ''Gadget'', IntV 5, BoolV False, StrV ''D9''],
             [StrV ''W1'', StrV ''S1'', StrV ''Widget'', IntV 2, BoolV True, StrV ''unknown'']]) \<and>
   [[StrV ''W9'', StrV ''S9'', StrV ''Bolt'', IntV 1, BoolV True, StrV ''D1''],
    [StrV ''W2'', StrV ''S2'', StrV ''Gadget'', IntV 5, BoolV False, StrV ''D9''],
    [StrV ''W1'', StrV ''S1'', StrV ''Widget'', IntV 2, BoolV True, StrV ''unknown'']] \<noteq>
   [[StrV ''W2'', StrV ''S2'', StrV ''Gadget'', IntV 5, BoolV False, StrV ''D9''],
    [StrV ''W1'', StrV ''S1'', StrV ''Widget'', IntV 2, BoolV True, StrV ''unknown'']]"
  by code_simp

text \<open>
  \<^bold>\<open>Claim C8\<close>, amended: a run that raises nothing has appended exactly twice, first the
  direct mapper's rows and then the reconciler's, so the table ends as the rows it held
  before the run, followed by the mapper's rows, followed by the reconciler's rows (for a
  table that was empty: the mapper's rows followed by the reconciler's). A run that
  raises leaves the table as it was or with the mapper's rows appended: the reconciler's
  rows are never in the table without the mapper's rows before them.
\<close>

theorem main_append_order:
  "(main accepts sheet0 sheet1 sheet2 t = (None, t') \<longrightarrow>
      (\<exists>sheet0_clean shipment_summary.
          direct_mapper sheet0 = Inr sheet0_clean \<and>
          reconciler sheet1 sheet2 = Inr shipment_summary \<and>
          to_sql accepts sheet0_clean t = Inr (t @ rows sheet0_clean) \<and>
          to_sql accepts shipment_summary (t @ rows sheet0_clean) = Inr t' \<and>
          t' = t @ rows sheet0_clean @ rows shipment_summary)) \<and>
   (\<forall>e. main accepts sheet0 sheet1 sheet2 t = (Some e, t') \<longrightarrow>
      t' = t \<or> (\<exists>sheet0_clean. direct_mapper sheet0 = Inr sheet0_clean \<and> t' = t @ rows sheet0_clean))"
  unfolding main_def to_sql_def
  by (auto split: sum.splits if_splits)

theorem main_append_order_witness:
  "main (\<lambda>df t. True) sheet0_example sheet1_example sheet2_example [] =
     (None, [[StrV ''W2'', StrV ''S2'', StrV ''Gadget'', IntV 5, BoolV False, StrV ''D9''],
             [StrV ''W1'', StrV ''S1'', StrV ''Widget'', IntV 2, BoolV True, StrV ''unknown'']]) \<and>
   direct_mapper sheet0_example =
     Inr \<lparr>columns = shipment_columns,
          rows = [[StrV ''W2'', StrV ''S2'', StrV ''Gadget'', IntV 5, BoolV False, StrV ''D9'']]\<rparr> \<and>
   reconciler sheet1_example sheet2_example = Inr summary_example \<and>
   main (\<lambda>df t. True) sheet0_example sheet1_example sheet2_text_ids [] =
     (Some (ValueError ''You are trying to merge on columns of different types''),
      [[StrV ''W2'', StrV ''S2'', StrV ''Gadget'', IntV 5, BoolV False, StrV ''D9'']])"
proof -
  let ?m = "[StrV ''W2'', StrV ''S2'', StrV ''Gadget'', IntV 5, BoolV False, StrV ''D9'']"
  let ?t = "[?m, [StrV ''W1'', StrV ''S1'', StrV ''Widget'', IntV 2, BoolV True, StrV ''unknown'']]"
  have m: "direct_mapper sheet0_example = Inr \<lparr>columns = shipment_columns, rows = [?m]\<rparr>"
    by code_simp
  have run: "main (\<lambda>df t. True) sheet0_example sheet1_example sheet2_example [] = (None, ?t)"
    unfolding main_def to_sql_def m example_reconciler by (simp add: summary_example_def)
  have bad: "main (\<lambda>df t. True) sheet0_example sheet1_example sheet2_text_ids [] =
     (Some (ValueError ''You are trying to merge on columns of different types''), [?m])"
    by code_simp
  from main_append_order [of "\<lambda>df t. True" sheet0_example sheet1_example sheet2_example "[]" ?t] run
  obtain c s where "direct_mapper sheet0_example = Inr c"
    "reconciler sheet1_example sheet2_example = Inr s" "?t = [] @ rows c @ rows s"
    by blast
  moreover
  from main_append_order [of "\<lambda>df t. True" sheet0_example sheet1_example sheet2_text_ids "[]" "[?m]"] bad
  have "[?m] = [] \<or> (\<exists>c. direct_mapper sheet0_example = Inr c \<and> [?m] = [] @ rows c)"
    by blast
  ultimately show ?thesis
    using m example_reconciler run bad by simp
qed

end
